theory Spec2Isabelle
  imports Complex_Main "HOL-Library.Word" "HOL-Library.Sublist"
begin

unbundle bit_operations_syntax

section \<open>Python values used by the pipeline\<close>

text \<open>
  Python integers are unbounded: \<^typ>\<open>int\<close>. A Python \<open>str\<close> is a \<^typ>\<open>string\<close>; a
  \<^typ>\<open>char\<close> stands for a code point below 256. A slice \<open>xs[i:j]\<close> never raises: negative
  bounds count from the end and both bounds are clamped to the list.
\<close>

definition py_slice :: "'a list \<Rightarrow> int \<Rightarrow> int \<Rightarrow> 'a list" where
  "py_slice xs i j =
     (let n = int (length xs);
          lo = (if i < 0 then max (i + n) 0 else min i n);
          hi = (if j < 0 then max (j + n) 0 else min j n)
      in take (nat (hi - lo)) (drop (nat lo) xs))"

text \<open>The characters that \<open>str.strip()\<close> removes, among the code points below 256.\<close>

definition py_isspace :: "char \<Rightarrow> bool" where
  "py_isspace c = (of_char c \<in> {9, 10, 11, 12, 13, 28, 29, 30, 31, 32, 133, 160 :: nat})"

definition py_strip :: "string \<Rightarrow> string" where
  "py_strip s = rev (dropWhile py_isspace (rev (dropWhile py_isspace s)))"

definition py_lower_char :: "char \<Rightarrow> char" where
  "py_lower_char c =
     (let n = of_char c :: nat
      in if (65 \<le> n \<and> n \<le> 90) \<or> (192 \<le> n \<and> n \<le> 214) \<or> (216 \<le> n \<and> n \<le> 222)
         then char_of (n + 32) else c)"

definition py_lower :: "string \<Rightarrow> string" where
  "py_lower s = map py_lower_char s"

text \<open>\<open>sep.join(parts)\<close>.\<close>

fun py_join :: "string \<Rightarrow> string list \<Rightarrow> string" where
  "py_join sep [] = []"
| "py_join sep [x] = x"
| "py_join sep (x # y # ys) = x @ sep @ py_join sep (y # ys)"

text \<open>\<open>str(n)\<close> for an integer: decimal digits, with a sign when negative.\<close>

function str_nat :: "nat \<Rightarrow> string" where
  "str_nat n = (if n < 10 then [''0123456789'' ! n]
                else str_nat (n div 10) @ [''0123456789'' ! (n mod 10)])"
  by pat_completeness auto
termination
  by (relation "measure (\<lambda>n. n)") auto

declare str_nat.simps [simp del]

definition str_int :: "int \<Rightarrow> string" where
  "str_int i = (if i < 0 then CHR ''-'' # str_nat (nat (- i)) else str_nat (nat i))"

text \<open>
  \<open>uuid.uuid4()\<close> takes 16 random bytes, here a 128-bit word, and sets the variant and
  version bits; \<open>str\<close> of a UUID is its 32 lowercase hexadecimal digits in groups of
  8, 4, 4, 4 and 12, joined by hyphens.
\<close>

definition uuid4 :: "128 word \<Rightarrow> 128 word" where
  "uuid4 r = (((r AND NOT (push_bit 48 0xc000)) OR push_bit 48 0x8000)
                AND NOT (push_bit 64 0xf000)) OR push_bit 76 4"

definition hex32 :: "nat \<Rightarrow> string" where
  "hex32 n = map (\<lambda>k. ''0123456789abcdef'' ! ((n div 16 ^ (31 - k)) mod 16)) [0..<32]"

definition uuid_str :: "128 word \<Rightarrow> string" where
  "uuid_str u =
     (let hex = hex32 (unat u)
      in py_slice hex 0 8 @ ''-'' @ py_slice hex 8 12 @ ''-'' @ py_slice hex 12 16 @ ''-''
           @ py_slice hex 16 20 @ ''-'' @ py_slice hex 20 (int (length hex)))"


section \<open>TextChunker (backend/ingest.py)\<close>

text \<open>
  The tokenizer is a HuggingFace object; only its \<open>encode\<close> and \<open>decode\<close> methods are
  used, and they are fields of the chunker. \<open>__init__\<close> stores the two numbers as they
  are given: there is no check that relates \<open>overlap\<close> to \<open>chunk_size\<close>.
\<close>

record 't TextChunker =
  tokenizer_encode :: "string \<Rightarrow> 't list"
  tokenizer_decode :: "'t list \<Rightarrow> string"
  chunk_size :: int
  overlap :: int

definition TextChunker_init ::
  "(string \<Rightarrow> 't list) \<Rightarrow> ('t list \<Rightarrow> string) \<Rightarrow> int \<Rightarrow> int \<Rightarrow> 't TextChunker" where
  "TextChunker_init enc dec cs ov =
     \<lparr>tokenizer_encode = enc, tokenizer_decode = dec, chunk_size = cs, overlap = ov\<rparr>"

text \<open>
  The \<open>while start < len(tokens)\<close> loop of \<open>chunk\<close>. It may run forever, so its value is an
  option: \<open>None\<close> is a call that does not return. The decoding step is the parameter
  \<open>decode\<close>, so that the same loop also yields the token windows themselves.
\<close>

partial_function (option) chunk_loop ::
  "'t TextChunker \<Rightarrow> ('t list \<Rightarrow> 's) \<Rightarrow> 't list \<Rightarrow> int \<Rightarrow> 's list \<Rightarrow> 's list option" where
  "chunk_loop self decode tokens start chunks =
     (if start < int (length tokens) then
        (let end = min (start + chunk_size self) (int (length tokens));
             chunk_tokens = py_slice tokens start end;
             chunk_text = decode chunk_tokens;
             chunks' = chunks @ [chunk_text]
         in if end \<ge> int (length tokens) then Some chunks'
            else chunk_loop self decode tokens (start + (chunk_size self - overlap self)) chunks')
      else Some chunks)"

declare chunk_loop.simps [code]

definition chunk :: "'t TextChunker \<Rightarrow> string \<Rightarrow> string list option" where
  "chunk self text =
     (let tokens = tokenizer_encode self text
      in if length tokens = 0 then Some []
         else chunk_loop self (tokenizer_decode self) tokens 0 [])"

text \<open>The token windows that \<open>chunk\<close> decodes: the same call with the decoding step left out.\<close>

definition chunk_windows :: "'t TextChunker \<Rightarrow> string \<Rightarrow> 't list list option" where
  "chunk_windows self text =
     (let tokens = tokenizer_encode self text
      in if length tokens = 0 then Some []
         else chunk_loop self (\<lambda>w. w) tokens 0 [])"

section \<open>Exceptions and the world outside the process\<close>

text \<open>
  A raised exception is a value. \<open>OtherException\<close> stands for any further subclass of
  \<open>Exception\<close> that a library may raise, \<open>BaseExc\<close> for a \<open>BaseException\<close> that is not an
  \<open>Exception\<close> (\<open>KeyboardInterrupt\<close>, \<open>SystemExit\<close>), which \<open>except Exception\<close> lets through.
  \<open>exc_str\<close> is the text that \<open>str(e)\<close> gives.
\<close>

datatype exc =
    ValueError string
  | TypeError string
  | IndexError string
  | RuntimeError string
  | HTTPException int string
  | OtherException string
  | BaseExc string

fun is_Exception :: "exc \<Rightarrow> bool" where
  "is_Exception (BaseExc m) = False"
| "is_Exception e = True"

fun exc_str :: "exc \<Rightarrow> string" where
  "exc_str (ValueError m) = m"
| "exc_str (TypeError m) = m"
| "exc_str (IndexError m) = m"
| "exc_str (RuntimeError m) = m"
| "exc_str (HTTPException status detail) = str_int status @ '': '' @ detail"
| "exc_str (OtherException m) = m"
| "exc_str (BaseExc m) = m"

text \<open>
  Calls of \<open>logger.warning\<close> are recorded with the values they interpolate; records of the
  other levels are not part of the model.
\<close>

datatype warning =
    PageImageOnly int
  | AttemptFailed int int exc
  | NoChunksToAdd
  | NoResultsFound

text \<open>A metadata dictionary of Chroma: keys in insertion order, values strings or integers.\<close>

datatype mval = MStr string | MInt int

type_synonym metadata = "(string \<times> mval) list"

record 'v chunk_record =
  rec_id :: string
  rec_document :: string
  rec_embedding :: 'v
  rec_metadata :: metadata

datatype event =
    Slept real
  | Warned warning
  | EmbeddingModelRun "string list"
  | GenerationModelRun string

text \<open>
  The state that calls act on: the records of the Chroma collection, in the order they
  were added, and the history of what the process did to its surroundings.
  \<open>collection.count()\<close> is the number of records.
\<close>

record 'v world =
  collection :: "'v chunk_record list"
  history :: "event list"

definition log_warning :: "warning \<Rightarrow> 'v world \<Rightarrow> 'v world" where
  "log_warning m w = w\<lparr>history := history w @ [Warned m]\<rparr>"

text \<open>\<open>time.sleep\<close> refuses a negative length with a \<open>ValueError\<close>.\<close>

definition time_sleep :: "real \<Rightarrow> 'v world \<Rightarrow> exc option \<times> 'v world" where
  "time_sleep secs w =
     (if secs < 0 then (Some (ValueError ''sleep length must be non-negative''), w)
      else (None, w\<lparr>history := history w @ [Slept secs]\<rparr>))"

section \<open>retry_with_backoff (backend/ingest.py)\<close>

text \<open>
  \<open>func\<close> is a callable with effects: it takes the world and returns its outcome and the
  new world. The delay is a Python float; it is modelled as a real number, on which
  doubling is exact. \<open>trace\<close> is not a variable of the source: it records, in order, the
  calls of \<open>func\<close> (with their outcomes) and of \<open>time.sleep\<close> (with their argument) that
  the combinator makes, so that they can be counted.
\<close>

datatype 'a call = is_Invoked: Invoked "exc + 'a" | Sleep real

function retry_loop ::
  "('v world \<Rightarrow> (exc + 'a) \<times> 'v world) \<Rightarrow> int \<Rightarrow> int \<Rightarrow> real \<Rightarrow> exc option \<Rightarrow> 'a call list
     \<Rightarrow> 'v world \<Rightarrow> (exc + 'a) \<times> 'a call list \<times> 'v world" where
  "retry_loop func max_retries attempt delay last_exception trace w =
     (if attempt < max_retries then
        (case func w of
           (Inr v, w1) \<Rightarrow> (Inr v, trace @ [Invoked (Inr v)], w1)
         | (Inl e, w1) \<Rightarrow>
             if \<not> is_Exception e then (Inl e, trace @ [Invoked (Inl e)], w1)
             else
               (let w2 = log_warning (AttemptFailed (attempt + 1) max_retries e) w1
                in if attempt < max_retries - 1 then
                     (case time_sleep delay w2 of
                        (Some e', w3) \<Rightarrow> (Inl e', trace @ [Invoked (Inl e), Sleep delay], w3)
                      | (None, w3) \<Rightarrow>
                          retry_loop func max_retries (attempt + 1) (delay * 2) (Some e)
                            (trace @ [Invoked (Inl e), Sleep delay]) w3)
                   else retry_loop func max_retries (attempt + 1) delay (Some e)
                          (trace @ [Invoked (Inl e)]) w2))
      else (case last_exception of
              None \<Rightarrow> (Inl (TypeError ''exceptions must derive from BaseException''), trace, w)
            | Some e \<Rightarrow> (Inl e, trace, w)))"
  by pat_completeness auto
termination
  by (relation "measure (\<lambda>(func, max_retries, attempt, delay, last_exception, trace, w).
                           nat (max_retries - attempt))") auto

declare retry_loop.simps [simp del]

definition retry_with_backoff ::
  "('v world \<Rightarrow> (exc + 'a) \<times> 'v world) \<Rightarrow> int \<Rightarrow> real \<Rightarrow> 'v world
     \<Rightarrow> (exc + 'a) \<times> 'a call list \<times> 'v world" where
  "retry_with_backoff func max_retries initial_delay w =
     retry_loop func max_retries 0 initial_delay None [] w"

text \<open>The outcomes of the calls of \<open>func\<close> in a trace, and the lengths of its sleeps.\<close>

definition invocations :: "'a call list \<Rightarrow> (exc + 'a) list" where
  "invocations tr = concat (map (\<lambda>c. case c of Invoked r \<Rightarrow> [r] | Sleep d \<Rightarrow> []) tr)"

definition sleeps :: "'a call list \<Rightarrow> real list" where
  "sleeps tr = concat (map (\<lambda>c. case c of Invoked r \<Rightarrow> [] | Sleep d \<Rightarrow> [d]) tr)"


section \<open>Embedder.encode (backend/embedder.py)\<close>

text \<open>
  The collaborators that are libraries or services are parameters: the tokenizer (inside
  the chunker), the embedding model, the checks and the query engine of the collection
  and the generation model. A model's outcome may differ from call to call, so it is a function
  of the world at the time of the call. Loading the embedding model on first use and
  running it are one outcome here. \<open>MarkdownConverter.convert\<close> is a function from text
  to text that cannot raise; everything below holds for every such function, so it is a
  parameter as well. Vectors are values of a type \<open>'v\<close> that the code never looks into.
\<close>

record raw_results =
  raw_ids :: "string list list"
  raw_documents :: "string list list"
  raw_metadatas :: "metadata list list"
  raw_distances :: "real list list"

record ('t, 'v) services =
  chunker :: "'t TextChunker"
  markdown_convert :: "string \<Rightarrow> string"
  embedding_model :: "'v world \<Rightarrow> string list \<Rightarrow> exc + 'v list"
  collection_refuses :: "'v world \<Rightarrow> 'v chunk_record list \<Rightarrow> exc option"
  collection_query :: "'v world \<Rightarrow> 'v \<Rightarrow> int \<Rightarrow> exc + raw_results"
  generation_model :: "'v world \<Rightarrow> string \<Rightarrow> exc + string"

definition Embedder_encode ::
  "('t, 'v) services \<Rightarrow> string list \<Rightarrow> 'v world \<Rightarrow> (exc + 'v list) \<times> 'v world" where
  "Embedder_encode self texts w =
     (if texts = [] then (Inr [], w)
      else (embedding_model self w texts, w\<lparr>history := history w @ [EmbeddingModelRun texts]\<rparr>))"

section \<open>ChromaClient (backend/chroma_client.py)\<close>

text \<open>
  \<open>add_chunks\<close> returns nothing: its outcome is the exception it raises, if any. The
  collection is an object of the Chroma library, and the body of the \<open>try\<close> block, the
  call of its method \<open>add\<close> followed by the reading of its count for the log line, is
  the parameter \<open>collection_add\<close>: given the four lists and the world it may raise,
  change the world, or both. What it raises is handed on: an \<open>Exception\<close> is logged and
  raised again, anything else passes through.
\<close>

definition add_chunks ::
  "(string list \<Rightarrow> string list \<Rightarrow> 'v list \<Rightarrow> metadata list \<Rightarrow> 'v world \<Rightarrow> exc option \<times> 'v world)
     \<Rightarrow> string list \<Rightarrow> string list \<Rightarrow> 'v list \<Rightarrow> metadata list \<Rightarrow> 'v world
     \<Rightarrow> exc option \<times> 'v world" where
  "add_chunks collection_add ids documents embeddings metadatas w =
     (if ids = [] then (None, log_warning NoChunksToAdd w)
      else if \<not> (length ids = length documents \<and> length documents = length embeddings
                  \<and> length embeddings = length metadatas)
      then (Some (ValueError ''All input lists must have the same length''), w)
      else (case collection_add ids documents embeddings metadatas w of
              (None, w1) \<Rightarrow> (None, w1)
            | (Some e, w1) \<Rightarrow> (if is_Exception e then (Some e, w1) else (Some e, w1))))"

text \<open>
  The collection that \<open>process_pdf\<close> writes to: a list of records. What the engine raises
  for a batch (an identifier that occurs twice in it, an empty metadata dictionary) is
  the parameter \<open>refuses\<close>, and then nothing is written; a batch that is not refused is
  appended, one record per position. (The engine passes over a record whose identifier
  it already holds; \<open>process_pdf\<close> builds its identifiers from a fresh UUID.)
\<close>

definition list_collection_add ::
  "('v world \<Rightarrow> 'v chunk_record list \<Rightarrow> exc option)
     \<Rightarrow> string list \<Rightarrow> string list \<Rightarrow> 'v list \<Rightarrow> metadata list \<Rightarrow> 'v world
     \<Rightarrow> exc option \<times> 'v world" where
  "list_collection_add refuses ids documents embeddings metadatas w =
     (let batch = map (\<lambda>(i, d, e, m). \<lparr>rec_id = i, rec_document = d, rec_embedding = e,
                                          rec_metadata = m\<rparr>)
                      (zip ids (zip documents (zip embeddings metadatas)))
      in case refuses w batch of
           Some e \<Rightarrow> (Some e, w)
         | None \<Rightarrow> (None, w\<lparr>collection := collection w @ batch\<rparr>))"

definition count :: "'v world \<Rightarrow> int" where
  "count w = int (length (collection w))"

record query_results =
  q_ids :: "string list"
  q_documents :: "string list"
  q_metadatas :: "metadata list"
  q_distances :: "real list"

definition query_similar ::
  "('t, 'v) services \<Rightarrow> 'v \<Rightarrow> int \<Rightarrow> 'v world \<Rightarrow> exc + query_results" where
  "query_similar self query_embedding k w =
     (case collection_query self w query_embedding k of
        Inl e \<Rightarrow> Inl e
      | Inr results \<Rightarrow>
          Inr \<lparr>q_ids = (case raw_ids results of [] \<Rightarrow> [] | x # xs \<Rightarrow> x),
               q_documents = (case raw_documents results of [] \<Rightarrow> [] | x # xs \<Rightarrow> x),
               q_metadatas = (case raw_metadatas results of [] \<Rightarrow> [] | x # xs \<Rightarrow> x),
               q_distances = (case raw_distances results of [] \<Rightarrow> [] | x # xs \<Rightarrow> x)\<rparr>)"

section \<open>PDFIngestor (backend/ingest.py)\<close>

text \<open>
  A PDF as PyMuPDF presents it: it cannot be opened, or it is a list of pages, each of
  which yields its text or raises.
\<close>

datatype page = PageText string | PageError exc

datatype pdf = Unopenable exc | Document "page list"

fun extract_pages ::
  "page list \<Rightarrow> int \<Rightarrow> (int \<times> string) list \<Rightarrow> int list \<Rightarrow> 'v world
     \<Rightarrow> (exc + (int \<times> string) list \<times> int list) \<times> 'v world" where
  "extract_pages [] page_num page_texts failed_pages w = (Inr (page_texts, failed_pages), w)"
| "extract_pages (PageError e # doc) page_num page_texts failed_pages w =
     (if is_Exception e
      then extract_pages doc (page_num + 1) page_texts (failed_pages @ [page_num + 1]) w
      else (Inl e, w))"
| "extract_pages (PageText text # doc) page_num page_texts failed_pages w =
     (if int (length (py_strip text)) < 10
      then extract_pages doc (page_num + 1) page_texts (failed_pages @ [page_num + 1])
             (log_warning (PageImageOnly (page_num + 1)) w)
      else extract_pages doc (page_num + 1) (page_texts @ [(page_num + 1, text)]) failed_pages w)"

definition extract_pdf_text ::
  "pdf \<Rightarrow> 'v world \<Rightarrow> (exc + (int \<times> string) list \<times> int list) \<times> 'v world" where
  "extract_pdf_text pdf_file w =
     (case pdf_file of
        Unopenable e \<Rightarrow>
          (if is_Exception e then Inl (ValueError (''Cannot open PDF file: '' @ exc_str e)) else Inl e, w)
      | Document doc \<Rightarrow>
          (case extract_pages doc 0 [] [] w of
             (Inl e, w1) \<Rightarrow>
               (if is_Exception e then Inl (ValueError (''Cannot open PDF file: '' @ exc_str e)) else Inl e, w1)
           | (Inr r, w1) \<Rightarrow> (Inr r, w1)))"

record chunk_entry =
  ce_text :: string
  ce_page_number :: int
  ce_chunk_index :: int

text \<open>The inner loop over the chunks of one page, and the outer loop over the pages.\<close>

fun page_chunks_loop ::
  "string list \<Rightarrow> int \<Rightarrow> chunk_entry list \<Rightarrow> int \<Rightarrow> chunk_entry list \<times> int" where
  "page_chunks_loop [] page_num all_chunks chunk_index = (all_chunks, chunk_index)"
| "page_chunks_loop (chunk_text # chunks) page_num all_chunks chunk_index =
     page_chunks_loop chunks page_num
       (all_chunks @ [\<lparr>ce_text = chunk_text, ce_page_number = page_num, ce_chunk_index = chunk_index\<rparr>])
       (chunk_index + 1)"

fun pages_loop ::
  "('t, 'v) services \<Rightarrow> (int \<times> string) list \<Rightarrow> chunk_entry list \<Rightarrow> int \<Rightarrow> chunk_entry list option" where
  "pages_loop self [] all_chunks chunk_index = Some all_chunks"
| "pages_loop self ((page_num, text) # page_texts) all_chunks chunk_index =
     (let markdown_text = markdown_convert self text
      in case chunk (chunker self) markdown_text of
           None \<Rightarrow> None
         | Some chunks \<Rightarrow>
             (case page_chunks_loop chunks page_num all_chunks chunk_index of
                (all_chunks', chunk_index') \<Rightarrow> pages_loop self page_texts all_chunks' chunk_index'))"

record ingest_result =
  res_doc_id :: string
  res_status :: string
  res_chunks :: int
  res_failed_pages :: "int list"

text \<open>
  \<open>process_pdf\<close>. The random bytes behind \<open>uuid.uuid4()\<close> and the text of
  \<open>datetime.now().isoformat()\<close> are arguments; the batch size of 32 is handed on to the
  embedding model and plays no part. The value is \<open>None\<close> when the chunker does not
  return; otherwise it is the raised exception or the returned dictionary, and the world
  after the call.
\<close>

definition process_pdf ::
  "('t, 'v) services \<Rightarrow> pdf \<Rightarrow> string \<Rightarrow> 128 word \<Rightarrow> string \<Rightarrow> 'v world
     \<Rightarrow> ((exc + ingest_result) \<times> 'v world) option" where
  "process_pdf self pdf_file filename random_bytes now w =
     (let doc_id = uuid_str (uuid4 random_bytes)
      in case extract_pdf_text pdf_file w of
           (Inl e, w1) \<Rightarrow> Some (Inl e, w1)
         | (Inr (page_texts, failed_pages), w1) \<Rightarrow>
             if page_texts = []
             then Some (Inl (ValueError
                    ''No text could be extracted from PDF. It may be image-only (OCR not supported).''), w1)
             else
               (case pages_loop self page_texts [] 0 of
                  None \<Rightarrow> None
                | Some all_chunks \<Rightarrow>
                    (let chunk_texts = map ce_text all_chunks;
                         embed_func = Embedder_encode self chunk_texts
                     in case retry_with_backoff embed_func 3 1 w1 of
                          (Inl e, tr, w2) \<Rightarrow> Some (Inl e, w2)
                        | (Inr embeddings, tr, w2) \<Rightarrow>
                            (let ingested_at = now;
                                 ids = map (\<lambda>c. doc_id @ ''___'' @ str_int (ce_chunk_index c)) all_chunks;
                                 documents = chunk_texts;
                                 metadatas = map (\<lambda>c. [(''doc_id'', MStr doc_id),
                                                         (''source_filename'', MStr filename),
                                                         (''page_number'', MInt (ce_page_number c)),
                                                         (''chunk_index'', MInt (ce_chunk_index c)),
                                                         (''ingested_at'', MStr ingested_at)]) all_chunks
                             in case add_chunks (list_collection_add (collection_refuses self))
                                       ids documents embeddings metadatas w2 of
                                  (Some e, w3) \<Rightarrow> Some (Inl e, w3)
                                | (None, w3) \<Rightarrow>
                                    Some (Inr \<lparr>res_doc_id = doc_id,
                                               res_status = (if failed_pages \<noteq> [] then ''partial''
                                                             else ''ingested''),
                                               res_chunks = int (length all_chunks),
                                               res_failed_pages = failed_pages\<rparr>, w3)))))"

section \<open>PromptBuilder and QueryService (backend/query.py)\<close>

record retrieved_chunk =
  rc_id :: string
  rc_document :: string
  rc_metadata :: metadata
  rc_distance :: real

text \<open>\<open>metadata.get(key, default)\<close> as an f-string shows it.\<close>

definition meta_text :: "metadata \<Rightarrow> string \<Rightarrow> string \<Rightarrow> string" where
  "meta_text m key fallback =
     (case map_of m key of None \<Rightarrow> fallback | Some (MStr s) \<Rightarrow> s | Some (MInt i) \<Rightarrow> str_int i)"

definition context_part :: "retrieved_chunk \<Rightarrow> string" where
  "context_part chunk' =
     (let metadata = rc_metadata chunk';
          document = rc_document chunk';
          source = meta_text metadata ''source_filename'' ''unknown'';
          page = meta_text metadata ''page_number'' ''N/A'';
          chunk_idx = meta_text metadata ''chunk_index'' ''N/A''
      in ''--- [source: '' @ source @ '' | page: '' @ page @ '' | chunk: '' @ chunk_idx
           @ ''] ---\<newline>'' @ document)"

definition PromptBuilder_build :: "string \<Rightarrow> retrieved_chunk list \<Rightarrow> string" where
  "PromptBuilder_build query chunks =
     (let context_parts = map context_part chunks;
          context_str = py_join ''\<newline>\<newline>'' context_parts
      in ''Answer the question using ONLY the information from the provided context. Be direct and concise.\<newline>\<newline>Context:\<newline>''
           @ context_str
           @ ''\<newline>\<newline>Question:\<newline>''
           @ query
           @ ''\<newline>\<newline>Instructions:\<newline>- Provide a clear, direct answer without listing sources inline\<newline>- Use natural conversational language\<newline>- Be concise (2-4 sentences maximum)\<newline>- If the context doesn't contain the answer, respond with ONLY: ''
           @ [CHR 0x22] @ ''I don't know.'' @ [CHR 0x22]
           @ ''\<newline>- Do NOT make up information or use knowledge outside the context\<newline>'')"

record citation =
  cit_source_filename :: "mval option"
  cit_page_number :: "mval option"
  cit_chunk_index :: "mval option"

record query_result =
  qr_answer :: string
  qr_citations :: "citation list"
  qr_retrieved_chunks :: "retrieved_chunk list"

text \<open>
  The loop \<open>for i in range(len(results["ids"]))\<close>: reading a list beyond its end raises
  \<open>IndexError\<close>.
\<close>

fun retrieved_loop ::
  "query_results \<Rightarrow> nat list \<Rightarrow> retrieved_chunk list \<Rightarrow> exc + retrieved_chunk list" where
  "retrieved_loop results [] retrieved_chunks = Inr retrieved_chunks"
| "retrieved_loop results (i # indices) retrieved_chunks =
     (if i < length (q_documents results) \<and> i < length (q_metadatas results)
         \<and> i < length (q_distances results)
      then retrieved_loop results indices
             (retrieved_chunks @ [\<lparr>rc_id = q_ids results ! i,
                                   rc_document = q_documents results ! i,
                                   rc_metadata = q_metadatas results ! i,
                                   rc_distance = q_distances results ! i\<rparr>])
      else Inl (IndexError ''list index out of range''))"

definition citation_of :: "retrieved_chunk \<Rightarrow> citation" where
  "citation_of chunk' =
     (let metadata = rc_metadata chunk'
      in \<lparr>cit_source_filename = map_of metadata ''source_filename'',
          cit_page_number = map_of metadata ''page_number'',
          cit_chunk_index = map_of metadata ''chunk_index''\<rparr>)"

definition answer_query ::
  "('t, 'v) services \<Rightarrow> string \<Rightarrow> int \<Rightarrow> 'v world \<Rightarrow> (exc + query_result) \<times> 'v world" where
  "answer_query self query k w =
     (case Embedder_encode self [query] w of
        (Inl e, w1) \<Rightarrow> (Inl e, w1)
      | (Inr [], w1) \<Rightarrow> (Inl (IndexError ''index 0 is out of bounds for axis 0 with size 0''), w1)
      | (Inr (query_embedding # rest), w1) \<Rightarrow>
          (case query_similar self query_embedding k w1 of
             Inl e \<Rightarrow> (Inl e, w1)
           | Inr results \<Rightarrow>
               if q_ids results = []
               then (Inr \<lparr>qr_answer = ''I don't know.'', qr_citations = [], qr_retrieved_chunks = []\<rparr>,
                     log_warning NoResultsFound w1)
               else
                 (case retrieved_loop results [0..<length (q_ids results)] [] of
                    Inl e \<Rightarrow> (Inl e, w1)
                  | Inr retrieved_chunks \<Rightarrow>
                      (let prompt = PromptBuilder_build query retrieved_chunks;
                           w2 = w1\<lparr>history := history w1 @ [GenerationModelRun prompt]\<rparr>
                       in case generation_model self w1 prompt of
                            Inl e \<Rightarrow>
                              (if \<not> is_Exception e then Inl e
                               else if sublist ''quota'' (py_lower (exc_str e))
                                       \<or> sublist ''rate'' (py_lower (exc_str e))
                               then Inl (RuntimeError
                                      ''Gemini API rate limit exceeded. Please try again later.'')
                               else Inl (RuntimeError (''Gemini API error: '' @ exc_str e)), w2)
                          | Inr text \<Rightarrow>
                              (let answer = py_strip text;
                                   citations = map citation_of retrieved_chunks
                               in (Inr \<lparr>qr_answer = answer, qr_citations = citations,
                                        qr_retrieved_chunks = retrieved_chunks\<rparr>, w2))))))"

section \<open>The query endpoint (backend/app.py)\<close>

text \<open>
  \<open>_process_query\<close>. \<open>response_model\<close> stands for the construction of the pydantic
  \<open>QueryResponse\<close> from the dictionary that \<open>answer_query\<close> returns, which validates the
  field types and may raise. On the empty store the response is built from a literal
  answer and two empty lists.
\<close>

definition process_query ::
  "('t, 'v) services \<Rightarrow> (query_result \<Rightarrow> exc + query_result) \<Rightarrow> string \<Rightarrow> 'v world
     \<Rightarrow> (exc + query_result) \<times> 'v world" where
  "process_query self response_model query w =
     (if count w = 0
      then (Inr \<lparr>qr_answer = ''I don't know.'', qr_citations = [], qr_retrieved_chunks = []\<rparr>, w)
      else
        (case answer_query self query 5 w of
           (Inr result, w1) \<Rightarrow>
             (case response_model result of
                Inr response \<Rightarrow> (Inr response, w1)
              | Inl e \<Rightarrow>
                  (if is_Exception e
                   then Inl (HTTPException 500 (''Query failed: '' @ exc_str e)) else Inl e, w1))
         | (Inl (RuntimeError m), w1) \<Rightarrow>
             (if sublist ''rate limit'' (py_lower m) then Inl (HTTPException 429 m)
              else Inl (HTTPException 500 m), w1)
         | (Inl e, w1) \<Rightarrow>
             (if is_Exception e
              then Inl (HTTPException 500 (''Query failed: '' @ exc_str e)) else Inl e, w1)))"

text \<open>
  \<open>rag_callback\<close>, the function that \<open>voice_conversation\<close> hands to the conversation
  handler: it answers a transcribed question. On the empty store it returns a sentence
  of its own; otherwise the answer of \<open>answer_query\<close> with \<open>k = 5\<close>, and what that raises
  it raises.
\<close>

definition rag_callback ::
  "('t, 'v) services \<Rightarrow> string \<Rightarrow> 'v world \<Rightarrow> (exc + string) \<times> 'v world" where
  "rag_callback self user_text w =
     (if count w = 0
      then (Inr ''I don't have any documents to answer from. Please upload some documents first.'', w)
      else
        (case answer_query self user_text 5 w of
           (Inr result, w1) \<Rightarrow> (Inr (qr_answer result), w1)
         | (Inl e, w1) \<Rightarrow> (Inl e, w1)))"

section \<open>Notions used to state the properties\<close>

text \<open>
  A page fails extraction when reading it raises or when its text, stripped, has fewer
  than 10 characters. \<open>numbered\<close> pairs the pages of a document with their page numbers,
  which start at 1.
\<close>

fun page_failed :: "page \<Rightarrow> bool" where
  "page_failed (PageError e) = True"
| "page_failed (PageText text) = (length (py_strip text) < 10)"

definition numbered :: "page list \<Rightarrow> (int \<times> page) list" where
  "numbered doc = zip (map (\<lambda>i. int i + 1) [0..<length doc]) doc"

section \<open>Example inputs\<close>

text \<open>
  A chunker of size 8 and overlap 2 over a tokenizer that makes every character a token,
  an embedding model that maps a text to its length, an engine that refuses a batch in
  which an identifier occurs twice and returns the whole collection at distance 0, and
  a generation model that always refuses. The PDF has
  three pages, the second with no text.
\<close>

definition example_refuses :: "nat world \<Rightarrow> nat chunk_record list \<Rightarrow> exc option" where
  "example_refuses w batch =
     (if distinct (map rec_id batch) then None
      else Some (OtherException ''Expected IDs to be unique''))"

definition example_services :: "(char, nat) services" where
  "example_services =
     \<lparr>chunker = TextChunker_init (\<lambda>s. s) (\<lambda>ts. ts) 8 2,
      markdown_convert = (\<lambda>t. t),
      embedding_model = (\<lambda>w texts. Inr (map length texts)),
      collection_refuses = example_refuses,
      collection_query = (\<lambda>w v k. Inr \<lparr>raw_ids = [map rec_id (collection w)],
                                          raw_documents = [map rec_document (collection w)],
                                          raw_metadatas = [map rec_metadata (collection w)],
                                          raw_distances = [map (\<lambda>r. 0) (collection w)]\<rparr>),
      generation_model = (\<lambda>w prompt. Inr '' I don't know. '')\<rparr>"

definition empty_world :: "nat world" where
  "empty_world = \<lparr>collection = [], history = []\<rparr>"

definition example_pdf :: pdf where
  "example_pdf = Document [PageText ''hello world page'', PageText ''  '', PageText ''second page!'']"

definition blank_pdf :: pdf where
  "blank_pdf = Document [PageText ''  '', PageError (OtherException ''damaged page'')]"

text \<open>What ingesting the example PDF returns, and the world it leaves.\<close>

definition example_result :: ingest_result where
  "example_result =
     \<lparr>res_doc_id = uuid_str (uuid4 0), res_status = ''partial'', res_chunks = 5,
      res_failed_pages = [2]\<rparr>"

definition example_stored :: "nat world" where
  "example_stored =
     \<lparr>collection =
        map (\<lambda>(i, d, e, p).
               \<lparr>rec_id = uuid_str (uuid4 0) @ ''___'' @ str_int i, rec_document = d,
                rec_embedding = e,
                rec_metadata = [(''doc_id'', MStr (uuid_str (uuid4 0))),
                                (''source_filename'', MStr ''notes.pdf''),
                                (''page_number'', MInt p),
                                (''chunk_index'', MInt i),
                                (''ingested_at'', MStr ''2024-01-01T00:00:00'')]\<rparr>)
            [(0, ''hello wo'', 8, 1), (1, ''world pa'', 8, 1), (2, ''page'', 4, 1),
             (3, ''second p'', 8, 3), (4, '' page!'', 6, 3)],
      history = [Warned (PageImageOnly 2),
                 EmbeddingModelRun [''hello wo'', ''world pa'', ''page'', ''second p'', '' page!'']]\<rparr>"

text \<open>What the example engine retrieves from that world.\<close>

definition example_results :: query_results where
  "example_results =
     \<lparr>q_ids = map rec_id (collection example_stored),
      q_documents = map rec_document (collection example_stored),
      q_metadatas = map rec_metadata (collection example_stored),
      q_distances = map (\<lambda>r. 0) (collection example_stored)\<rparr>"

section \<open>Token windows of the chunker\<close>

text \<open>
  With a start inside the list, the slice taken by the loop is the window of at most
  \<open>c\<close> tokens that begins there.
\<close>

lemma py_slice_window:
  assumes "a \<le> length xs"
  shows "py_slice xs (int a) (min (int a + int c) (int (length xs))) = take c (drop a xs)"
proof -
  let ?j = "min (int a + int c) (int (length xs))"
  have lo: "(if int a < 0 then max (int a + int (length xs)) 0 else min (int a) (int (length xs))) = int a"
    using assms by simp
  have hi: "(if ?j < 0 then max (?j + int (length xs)) 0 else min ?j (int (length xs))) = ?j"
    by simp
  have len: "nat (?j - int a) = min c (length xs - a)"
    using assms by (auto simp: min_def)
  have "py_slice xs (int a) ?j = take (nat (?j - int a)) (drop a xs)"
    unfolding py_slice_def Let_def lo hi by simp
  also have "\<dots> = take c (drop a xs)"
    unfolding len by (simp add: min_def)
  finally show ?thesis .
qed

text \<open>The window start grows in every round when \<open>overlap < chunk_size\<close>, so the loop ends.\<close>

lemma chunk_loop_returns:
  assumes "overlap self < chunk_size self"
  shows "\<exists>r. chunk_loop self d tokens start acc = Some r"
  using assms
proof (induction "nat (int (length tokens) - start)" arbitrary: start acc rule: less_induct)
  case less
  show ?case
  proof (cases "start < int (length tokens) \<and> start + chunk_size self < int (length tokens)")
    case True
    let ?s = "start + (chunk_size self - overlap self)"
    have "nat (int (length tokens) - ?s) < nat (int (length tokens) - start)"
      using True less.prems by linarith
    from less.hyps [OF this less.prems]
    obtain r where "chunk_loop self d tokens ?s (acc @ [d (py_slice tokens start (start + chunk_size self))]) = Some r"
      by blast
    then show ?thesis using True
      by (subst chunk_loop.simps) (simp add: Let_def min_def)
  next
    case False
    then show ?thesis
      by (subst chunk_loop.simps) (auto simp: Let_def min_def)
  qed
qed

text \<open>
  When \<open>chunk_size \<le> overlap\<close> the start never moves forward: from a start that is not
  positive and whose window ends before the last token, the loop cannot return.
\<close>

lemma chunk_loop_stalls:
  assumes "chunk_loop self d tokens start acc = Some r"
  shows "\<not> (chunk_size self \<le> overlap self \<and> start \<le> 0 \<and> 0 < length tokens
            \<and> start + chunk_size self < int (length tokens))"
proof (rule chunk_loop.raw_induct [where P = "\<lambda>self d tokens start acc r.
          \<not> (chunk_size self \<le> overlap self \<and> start \<le> 0 \<and> 0 < length tokens
            \<and> start + chunk_size self < int (length tokens))", OF _ assms], goal_cases)
  case (1 loop self d tokens start acc r)
  note IH = "1"(1) and step = "1"(2)
  show ?case
  proof
    assume inv: "chunk_size self \<le> overlap self \<and> start \<le> 0 \<and> 0 < length tokens
            \<and> start + chunk_size self < int (length tokens)"
    let ?s = "start + (chunk_size self - overlap self)"
    from inv have lt: "start < int (length tokens)" by linarith
    from inv have m: "min (start + chunk_size self) (int (length tokens)) = start + chunk_size self"
      by simp
    from step lt m inv have "loop self d tokens ?s (acc @ [d (py_slice tokens start (start + chunk_size self))]) = Some r"
      by (simp add: Let_def)
    from IH [OF this] inv show False by auto
  qed
qed


lemma chunk_loop_step:
  assumes cs: "chunk_size self = int (s + ov)" and ol: "overlap self = int ov"
    and a: "a < length tokens"
  shows "chunk_loop self d tokens (int a) acc =
           (if a + (s + ov) < length tokens
            then chunk_loop self d tokens (int (a + s)) (acc @ [d (take (s + ov) (drop a tokens))])
            else Some (acc @ [d (take (s + ov) (drop a tokens))]))"
proof -
  have lt: "int a < int (length tokens)" using a by simp
  have sl: "py_slice tokens (int a) (min (int a + chunk_size self) (int (length tokens)))
              = take (s + ov) (drop a tokens)"
    unfolding cs using py_slice_window [of a tokens "s + ov"] a by simp
  have nx: "int a + (chunk_size self - overlap self) = int (a + s)"
    unfolding cs ol by simp
  have ge: "int (length tokens) \<le> min (int a + chunk_size self) (int (length tokens))
              \<longleftrightarrow> \<not> a + (s + ov) < length tokens"
    unfolding cs by auto
  show ?thesis
    by (subst chunk_loop.simps, simp only: lt if_True Let_def sl ge nx, simp)
qed

lemma chunk_loop_closed:
  assumes cs: "chunk_size self = int (s + ov)" and ol: "overlap self = int ov"
    and s: "1 \<le> s" and j: "j * s < length tokens"
  shows "\<exists>m>j. chunk_loop self d tokens (int (j * s)) acc
               = Some (acc @ map (\<lambda>k. d (take (s + ov) (drop (k * s) tokens))) [j..<m])
           \<and> (\<forall>k. j \<le> k \<longrightarrow> Suc k < m \<longrightarrow> k * s + (s + ov) < length tokens)
           \<and> length tokens \<le> (m - 1) * s + (s + ov)"
  using j
proof (induction "length tokens - j * s" arbitrary: j acc rule: less_induct)
  case less
  let ?w = "d (take (s + ov) (drop (j * s) tokens))"
  note step = chunk_loop_step [OF cs ol less.prems, of d acc]
  show ?case
  proof (cases "j * s + (s + ov) < length tokens")
    case True
    have j': "Suc j * s < length tokens" using True by simp
    have "length tokens - Suc j * s < length tokens - j * s" using s less.prems by simp
    from less.hyps [OF this j', of "acc @ [?w]"]
    obtain m where m: "Suc j < m"
      and run: "chunk_loop self d tokens (int (Suc j * s)) (acc @ [?w])
                 = Some ((acc @ [?w]) @ map (\<lambda>k. d (take (s + ov) (drop (k * s) tokens))) [Suc j..<m])"
      and full: "\<forall>k. Suc j \<le> k \<longrightarrow> Suc k < m \<longrightarrow> k * s + (s + ov) < length tokens"
      and last: "length tokens \<le> (m - 1) * s + (s + ov)"
      by blast
    have eq: "j * s + s = Suc j * s" by simp
    have unf: "chunk_loop self d tokens (int (j * s)) acc
                 = chunk_loop self d tokens (int (Suc j * s)) (acc @ [?w])"
      unfolding step eq using True by simp
    have upt: "[j..<m] = j # [Suc j..<m]" using m by (simp add: upt_conv_Cons)
    have full': "\<forall>k. j \<le> k \<longrightarrow> Suc k < m \<longrightarrow> k * s + (s + ov) < length tokens"
    proof (intro allI impI)
      fix k assume "j \<le> k" "Suc k < m"
      show "k * s + (s + ov) < length tokens"
      proof (cases "k = j")
        case True with \<open>j * s + (s + ov) < length tokens\<close> show ?thesis by simp
      next
        case False with \<open>j \<le> k\<close> \<open>Suc k < m\<close> full show ?thesis by simp
      qed
    qed
    have res: "chunk_loop self d tokens (int (j * s)) acc
            = Some (acc @ map (\<lambda>k. d (take (s + ov) (drop (k * s) tokens))) [j..<m])"
      unfolding unf run upt by simp
    from m have "j < m" by simp
    with res full' last show ?thesis by blast
  next
    case False
    have res: "chunk_loop self d tokens (int (j * s)) acc
            = Some (acc @ map (\<lambda>k. d (take (s + ov) (drop (k * s) tokens))) [j..<Suc j])"
      unfolding step using False by simp
    have "length tokens \<le> (Suc j - 1) * s + (s + ov)" using False by simp
    with res show ?thesis by (intro exI [of _ "Suc j"]) simp
  qed
qed


lemma window_count_unique:
  assumes "j < m1" "j < m2"
    and "\<forall>k. j \<le> k \<longrightarrow> Suc k < m1 \<longrightarrow> k * s + c < (n::nat)" "n \<le> (m1 - 1) * s + c"
    and "\<forall>k. j \<le> k \<longrightarrow> Suc k < m2 \<longrightarrow> k * s + c < n" "n \<le> (m2 - 1) * s + c"
  shows "m1 = m2"
proof (rule ccontr)
  assume "m1 \<noteq> m2"
  then consider "m1 < m2" | "m2 < m1" by linarith
  then show False
  proof cases
    case 1
    with assms(1) have "j \<le> m1 - 1" "Suc (m1 - 1) < m2" by simp_all
    with assms(5) have "(m1 - 1) * s + c < n" by blast
    with assms(4) show False by simp
  next
    case 2
    with assms(2) have "j \<le> m2 - 1" "Suc (m2 - 1) < m1" by simp_all
    with assms(3) have "(m2 - 1) * s + c < n" by blast
    with assms(6) show False by simp
  qed
qed

lemma chunk_loop_windows:
  assumes nonneg: "0 \<le> overlap self" and lt: "overlap self < chunk_size self"
    and ne: "tokens \<noteq> []"
  defines "c \<equiv> nat (chunk_size self)" and "s \<equiv> nat (chunk_size self - overlap self)"
  shows "\<exists>m\<ge>1. chunk_loop self (\<lambda>w. w) tokens 0 [] = Some (map (\<lambda>k. take c (drop (k * s) tokens)) [0..<m])
            \<and> chunk_loop self d tokens 0 [] = Some (map (\<lambda>k. d (take c (drop (k * s) tokens))) [0..<m])
            \<and> (\<forall>k. Suc k < m \<longrightarrow> k * s + c < length tokens)
            \<and> length tokens \<le> (m - 1) * s + c"
proof -
  define ov where "ov = nat (overlap self)"
  have cs: "chunk_size self = int (s + ov)" and ol: "overlap self = int ov" and s1: "1 \<le> s"
    and c: "c = s + ov"
    using nonneg lt by (simp_all add: s_def ov_def c_def)
  have j: "0 * s < length tokens" using ne by simp
  from chunk_loop_closed [OF cs ol s1 j, of "\<lambda>w. w" "[]"]
  obtain m1 where m1: "0 < m1"
    "chunk_loop self (\<lambda>w. w) tokens 0 [] = Some (map (\<lambda>k. take c (drop (k * s) tokens)) [0..<m1])"
    "\<forall>k. 0 \<le> k \<longrightarrow> Suc k < m1 \<longrightarrow> k * s + c < length tokens" "length tokens \<le> (m1 - 1) * s + c"
    unfolding c by auto
  from chunk_loop_closed [OF cs ol s1 j, of d "[]"]
  obtain m2 where m2: "0 < m2"
    "chunk_loop self d tokens 0 [] = Some (map (\<lambda>k. d (take c (drop (k * s) tokens))) [0..<m2])"
    "\<forall>k. 0 \<le> k \<longrightarrow> Suc k < m2 \<longrightarrow> k * s + c < length tokens" "length tokens \<le> (m2 - 1) * s + c"
    unfolding c by auto
  have "m1 = m2"
    by (rule window_count_unique [OF m1(1) m2(1) m1(3,4) m2(3,4)])
  with m1 m2 show ?thesis by (intro exI [of _ m1]) auto
qed


lemma window_position:
  assumes s: "1 \<le> s" and sc: "s \<le> c" and m: "1 \<le> m" and i: "i < (n::nat)"
    and last: "n \<le> (m - 1) * s + c"
  shows "\<exists>k<m. k * s \<le> i \<and> i < k * s + min c (n - k * s)"
proof (cases "i div s < m")
  case True
  have "i div s * s \<le> i" by simp
  moreover have "i < i div s * s + s" using s
    by (metis One_nat_def Suc_le_lessD dividend_less_div_times add.commute)
  ultimately show ?thesis using True sc i by (intro exI [of _ "i div s"]) auto
next
  case False
  then have "m - 1 \<le> i div s" by simp
  then have "(m - 1) * s \<le> i div s * s" by (rule mult_le_mono1)
  also have "\<dots> \<le> i" by simp
  finally have "(m - 1) * s \<le> i" .
  then show ?thesis using m i last by (intro exI [of _ "m - 1"]) auto
qed

text \<open>
  Claim C1, as amended. When \<open>0 \<le> overlap < chunk_size\<close> and the text has at least one
  token, \<open>chunk\<close> returns and its chunks are the decodings of the token windows \<open>ws\<close>.
  Window \<open>k\<close> starts at token position \<open>k * (chunk_size - overlap)\<close> and holds at most
  \<open>chunk_size\<close> tokens; every token position lies inside some window; and any two
  consecutive windows, the last pair included, share exactly \<open>overlap\<close> token positions:
  the tokens of the earlier window after its first \<open>chunk_size - overlap\<close> are the first
  \<open>overlap\<close> tokens of the later one. The claim as written also admits a negative
  overlap, which \<open>__init__\<close> accepts and for which the loop skips tokens.
\<close>

theorem chunk_covers_with_overlap:
  assumes nonneg: "0 \<le> overlap self" and lt: "overlap self < chunk_size self"
    and ne: "tokenizer_encode self text \<noteq> []"
  defines "tokens \<equiv> tokenizer_encode self text"
    and "c \<equiv> nat (chunk_size self)"
    and "s \<equiv> nat (chunk_size self - overlap self)"
  shows "\<exists>ws. chunk_windows self text = Some ws
            \<and> chunk self text = Some (map (tokenizer_decode self) ws)
            \<and> ws \<noteq> []
            \<and> (\<forall>k<length ws. ws ! k = take c (drop (k * s) tokens))
            \<and> (\<forall>i<length tokens. \<exists>k<length ws. k * s \<le> i \<and> i < k * s + length (ws ! k))
            \<and> (\<forall>k. Suc k < length ws \<longrightarrow>
                   card ({k * s ..< k * s + length (ws ! k)}
                           \<inter> {Suc k * s ..< Suc k * s + length (ws ! Suc k)}) = nat (overlap self)
                 \<and> drop s (ws ! k) = take (nat (overlap self)) (ws ! Suc k))"
proof -
  have ne': "tokens \<noteq> []" using ne by (simp add: tokens_def)
  from chunk_loop_windows [OF nonneg lt ne', of "tokenizer_decode self"]
  obtain m where m: "1 \<le> m"
    and win: "chunk_loop self (\<lambda>w. w) tokens 0 [] = Some (map (\<lambda>k. take c (drop (k * s) tokens)) [0..<m])"
    and dec: "chunk_loop self (tokenizer_decode self) tokens 0 []
               = Some (map (\<lambda>k. tokenizer_decode self (take c (drop (k * s) tokens))) [0..<m])"
    and full: "\<forall>k. Suc k < m \<longrightarrow> k * s + c < length tokens"
    and last: "length tokens \<le> (m - 1) * s + c"
    unfolding c_def s_def by blast
  define ws where "ws = map (\<lambda>k. take c (drop (k * s) tokens)) [0..<m]"
  have len: "length ws = m" by (simp add: ws_def)
  have nth: "ws ! k = take c (drop (k * s) tokens)" if "k < m" for k
    using that by (simp add: ws_def)
  have lenk: "length (ws ! k) = min c (length tokens - k * s)" if "k < m" for k
    using nth [OF that] by simp
  have s1: "1 \<le> s" and sc: "s \<le> c" and cso: "c = s + nat (overlap self)"
    using nonneg lt by (simp_all add: s_def c_def)
  have p1: "chunk_windows self text = Some ws"
    using ne' win by (simp add: chunk_windows_def tokens_def ws_def)
  have p2: "chunk self text = Some (map (tokenizer_decode self) ws)"
    using ne' dec by (simp add: chunk_def tokens_def ws_def comp_def)
  have p3: "ws \<noteq> []" using m len by auto
  have p4: "\<forall>k<length ws. ws ! k = take c (drop (k * s) tokens)"
    using nth len by simp
  have p5: "\<forall>i<length tokens. \<exists>k<length ws. k * s \<le> i \<and> i < k * s + length (ws ! k)"
  proof (intro allI impI)
    fix i assume "i < length tokens"
    from window_position [OF s1 sc m this last]
    obtain k where "k < m" "k * s \<le> i" "i < k * s + min c (length tokens - k * s)" by blast
    then show "\<exists>k<length ws. k * s \<le> i \<and> i < k * s + length (ws ! k)"
      using lenk len by auto
  qed
  have p6: "\<forall>k. Suc k < length ws \<longrightarrow>
                   card ({k * s ..< k * s + length (ws ! k)}
                           \<inter> {Suc k * s ..< Suc k * s + length (ws ! Suc k)}) = nat (overlap self)
                 \<and> drop s (ws ! k) = take (nat (overlap self)) (ws ! Suc k)"
  proof (intro allI impI)
    fix k assume "Suc k < length ws"
    then have k: "Suc k < m" by (simp add: len)
    with full have fk: "k * s + c < length tokens" by blast
    have l0: "length (ws ! k) = c" using lenk [of k] k fk by simp
    have l1: "nat (overlap self) < length (ws ! Suc k)"
      using lenk [of "Suc k"] k fk cso s1 by simp
    have "{k * s ..< k * s + length (ws ! k)} \<inter> {Suc k * s ..< Suc k * s + length (ws ! Suc k)}
            = {k * s + s ..< k * s + c}"
      using l0 l1 cso by auto
    then have a: "card ({k * s ..< k * s + length (ws ! k)}
                     \<inter> {Suc k * s ..< Suc k * s + length (ws ! Suc k)}) = nat (overlap self)"
      using cso by simp
    have "drop s (ws ! k) = take (c - s) (drop (k * s + s) tokens)"
      using nth [of k] k by (simp add: drop_take add.commute)
    also have "\<dots> = take (nat (overlap self)) (ws ! Suc k)"
      using nth [of "Suc k"] k cso by (simp add: min_def add.commute)
    finally show "card ({k * s ..< k * s + length (ws ! k)}
                           \<inter> {Suc k * s ..< Suc k * s + length (ws ! Suc k)}) = nat (overlap self)
                 \<and> drop s (ws ! k) = take (nat (overlap self)) (ws ! Suc k)"
      using a by simp
  qed
  from p1 p2 p3 p4 p5 p6 show ?thesis by blast
qed

text \<open>
  Chunk size 3, overlap 1, a tokenizer that makes every character a token: six tokens
  give the windows \<open>abc\<close>, \<open>cde\<close>, \<open>ef\<close>.
\<close>

theorem chunk_covers_with_overlap_witness:
  "0 \<le> overlap (TextChunker_init (\<lambda>s. s) (\<lambda>w. w) 3 1)
   \<and> overlap (TextChunker_init (\<lambda>s. s) (\<lambda>w. w) 3 1) < chunk_size (TextChunker_init (\<lambda>s. s) (\<lambda>w. w) 3 1)
   \<and> tokenizer_encode (TextChunker_init (\<lambda>s. s) (\<lambda>w. w) 3 1) ''abcdef'' \<noteq> []
   \<and> chunk_windows (TextChunker_init (\<lambda>s. s) (\<lambda>w. w) 3 1) ''abcdef'' = Some [''abc'', ''cde'', ''ef'']
   \<and> (\<exists>ws. chunk_windows (TextChunker_init (\<lambda>s. s) (\<lambda>w. w) 3 1) ''abcdef'' = Some ws
          \<and> chunk (TextChunker_init (\<lambda>s. s) (\<lambda>w. w) 3 1) ''abcdef'' = Some ws
          \<and> card ({0 ..< length (ws ! 0)} \<inter> {2 ..< 2 + length (ws ! 1)}) = 1
          \<and> drop 2 (ws ! 0) = take 1 (ws ! 1))"
proof -
  let ?C = "TextChunker_init (\<lambda>s. s) (\<lambda>w. w) 3 1 :: char TextChunker"
  have h1: "0 \<le> overlap ?C" and h2: "overlap ?C < chunk_size ?C"
    and h3: "tokenizer_encode ?C ''abcdef'' \<noteq> []"
    by (simp_all add: TextChunker_init_def)
  have ev: "chunk_windows ?C ''abcdef'' = Some [''abc'', ''cde'', ''ef'']"
    by (simp add: chunk_windows_def TextChunker_init_def chunk_loop.simps py_slice_def)
  from chunk_covers_with_overlap [OF h1 h2 h3]
  obtain ws where ws: "chunk_windows ?C ''abcdef'' = Some ws"
    "chunk ?C ''abcdef'' = Some (map (tokenizer_decode ?C) ws)"
    "\<forall>k. Suc k < length ws \<longrightarrow>
        card ({k * nat (chunk_size ?C - overlap ?C) ..< k * nat (chunk_size ?C - overlap ?C) + length (ws ! k)}
               \<inter> {Suc k * nat (chunk_size ?C - overlap ?C) ..< Suc k * nat (chunk_size ?C - overlap ?C) + length (ws ! Suc k)})
          = nat (overlap ?C)
        \<and> drop (nat (chunk_size ?C - overlap ?C)) (ws ! k) = take (nat (overlap ?C)) (ws ! Suc k)"
    by blast
  from ws(1) ev have len: "Suc 0 < length ws" by auto
  from ws(3) len have
    "card ({0 * nat (chunk_size ?C - overlap ?C) ..< 0 * nat (chunk_size ?C - overlap ?C) + length (ws ! 0)}
               \<inter> {Suc 0 * nat (chunk_size ?C - overlap ?C) ..< Suc 0 * nat (chunk_size ?C - overlap ?C) + length (ws ! Suc 0)})
          = nat (overlap ?C)
        \<and> drop (nat (chunk_size ?C - overlap ?C)) (ws ! 0) = take (nat (overlap ?C)) (ws ! Suc 0)"
    by blast
  then have sh: "card ({0 ..< length (ws ! 0)} \<inter> {2 ..< 2 + length (ws ! 1)}) = 1
          \<and> drop 2 (ws ! 0) = take 1 (ws ! 1)"
    by (simp add: TextChunker_init_def)
  have "chunk ?C ''abcdef'' = Some ws" using ws(2) by (simp add: TextChunker_init_def)
  with h1 h2 h3 ev ws(1) sh show ?thesis by blast
qed

text \<open>
  Chunk size 2 and overlap -1 satisfy \<open>overlap < chunk_size\<close>. On three tokens the loop
  takes the window \<open>ab\<close>, moves the start to 3 and stops: the token \<open>c\<close> is in no window.
\<close>

theorem chunk_negative_overlap_counterexample:
  "overlap (TextChunker_init (\<lambda>s. s) (\<lambda>w. w) 2 (- 1)) < chunk_size (TextChunker_init (\<lambda>s. s) (\<lambda>w. w) 2 (- 1))
   \<and> tokenizer_encode (TextChunker_init (\<lambda>s. s) (\<lambda>w. w) 2 (- 1)) ''abc'' = ''abc''
   \<and> chunk_windows (TextChunker_init (\<lambda>s. s) (\<lambda>w. w) 2 (- 1)) ''abc'' = Some [''ab'']
   \<and> CHR ''c'' \<notin> set ''ab''"
  by (simp add: chunk_windows_def TextChunker_init_def chunk_loop.simps py_slice_def)

text \<open>
  Claim C2, as amended. Under \<open>overlap < chunk_size\<close> the call \<open>chunk\<close> returns for every
  text. When \<open>chunk_size \<le> overlap\<close> and the tokenized text is non-empty and longer than
  \<open>chunk_size\<close>, the amount added to the window start in each round is not positive and
  the call does not return. \<open>__init__\<close> accepts every pair of values and stores it.
  The claim as written leaves out that the tokenized text must be non-empty: with a
  negative chunk size the empty token list is longer than \<open>chunk_size\<close>, and \<open>chunk\<close>
  returns at once.
\<close>

theorem chunk_terminates_or_stalls:
  "(overlap self < chunk_size self \<longrightarrow> (\<exists>chunks. chunk self text = Some chunks))
   \<and> (chunk_size self \<le> overlap self \<and> tokenizer_encode self text \<noteq> []
        \<and> chunk_size self < int (length (tokenizer_encode self text))
      \<longrightarrow> chunk self text = None \<and> chunk_size self - overlap self \<le> 0)
   \<and> chunk_size (TextChunker_init enc dec cs ov) = cs
   \<and> overlap (TextChunker_init enc dec cs ov) = ov"
proof (intro conjI impI)
  assume "overlap self < chunk_size self"
  from chunk_loop_returns [OF this, of "tokenizer_decode self" "tokenizer_encode self text" 0 "[]"]
  show "\<exists>chunks. chunk self text = Some chunks"
    by (simp add: chunk_def Let_def)
next
  assume a: "chunk_size self \<le> overlap self \<and> tokenizer_encode self text \<noteq> []
        \<and> chunk_size self < int (length (tokenizer_encode self text))"
  let ?tokens = "tokenizer_encode self text"
  have "chunk_loop self (tokenizer_decode self) ?tokens 0 [] = None"
  proof (cases "chunk_loop self (tokenizer_decode self) ?tokens 0 []")
    case None then show ?thesis .
  next
    case (Some r)
    from chunk_loop_stalls [OF this] a show ?thesis by simp
  qed
  with a show "chunk self text = None" by (simp add: chunk_def Let_def)
  from a show "chunk_size self - overlap self \<le> 0" by simp
qed (simp_all add: TextChunker_init_def)

text \<open>Sizes 3 and 1 return on six tokens; sizes 2 and 2 never return on three tokens.\<close>

theorem chunk_terminates_or_stalls_witness:
  "overlap (TextChunker_init (\<lambda>s. s) (\<lambda>w. w) 3 1) < chunk_size (TextChunker_init (\<lambda>s. s) (\<lambda>w. w) 3 1)
   \<and> (\<exists>chunks. chunk (TextChunker_init (\<lambda>s. s) (\<lambda>w. w) 3 1) ''abcdef'' = Some chunks)
   \<and> chunk_size (TextChunker_init (\<lambda>s. s) (\<lambda>w. w) 2 2) \<le> overlap (TextChunker_init (\<lambda>s. s) (\<lambda>w. w) 2 2)
   \<and> tokenizer_encode (TextChunker_init (\<lambda>s. s) (\<lambda>w. w) 2 2) ''abc'' \<noteq> []
   \<and> chunk_size (TextChunker_init (\<lambda>s. s) (\<lambda>w. w) 2 2)
        < int (length (tokenizer_encode (TextChunker_init (\<lambda>s. s) (\<lambda>w. w) 2 2) ''abc''))
   \<and> chunk (TextChunker_init (\<lambda>s. s) (\<lambda>w. w) 2 2) ''abc'' = None"
  using chunk_terminates_or_stalls [of "TextChunker_init (\<lambda>s. s) (\<lambda>w. w) 3 1" "''abcdef''"]
        chunk_terminates_or_stalls [of "TextChunker_init (\<lambda>s. s) (\<lambda>w. w) 2 2" "''abc''"]
  by (simp add: TextChunker_init_def)

text \<open>
  Chunk size -1 and overlap 0 on the empty text: \<open>overlap \<ge> chunk_size\<close> and the empty
  token list is longer than \<open>chunk_size\<close>, yet the call returns the empty list.
\<close>

theorem chunk_empty_text_counterexample:
  "chunk_size (TextChunker_init (\<lambda>s. s) (\<lambda>w. w) (- 1) 0) \<le> overlap (TextChunker_init (\<lambda>s. s) (\<lambda>w. w) (- 1) 0)
   \<and> chunk_size (TextChunker_init (\<lambda>s. s) (\<lambda>w. w) (- 1) 0)
        < int (length (tokenizer_encode (TextChunker_init (\<lambda>s. s) (\<lambda>w. w) (- 1) 0) ''''))
   \<and> chunk (TextChunker_init (\<lambda>s. s) (\<lambda>w. w) (- 1) 0) '''' = Some []"
  by (simp add: chunk_def TextChunker_init_def)

section \<open>The retry combinator\<close>

lemma invocations_simps [simp]:
  "invocations [] = []"
  "invocations (tr @ tr') = invocations tr @ invocations tr'"
  "invocations (Invoked r # tr) = r # invocations tr"
  "invocations (Sleep d # tr) = invocations tr"
  by (simp_all add: invocations_def)

lemma sleeps_simps [simp]:
  "sleeps [] = []"
  "sleeps (tr @ tr') = sleeps tr @ sleeps tr'"
  "sleeps (Invoked r # tr) = sleeps tr"
  "sleeps (Sleep d # tr) = d # sleeps tr"
  by (simp_all add: sleeps_def)















text \<open>
  Claim C10. With \<open>max_retries \<le> 0\<close> the loop body never runs: \<open>func\<close> is not called, the
  world is unchanged, no value is returned, and \<open>raise last_exception\<close> with
  \<open>last_exception = None\<close> fails with a \<open>TypeError\<close>.
\<close>

theorem retry_with_backoff_no_attempts:
  "max_retries \<le> 0 \<Longrightarrow>
     retry_with_backoff func max_retries initial_delay w
       = (Inl (TypeError ''exceptions must derive from BaseException''), [], w)"
  by (simp add: retry_with_backoff_def retry_loop.simps)

text \<open>An operation that would succeed at once is not called for 0 or -2 attempts.\<close>

theorem retry_with_backoff_no_attempts_witness:
  "(0 :: int) \<le> 0
   \<and> retry_with_backoff (\<lambda>w. (Inr (7 :: nat), w)) 0 1
         \<lparr>collection = ([] :: nat chunk_record list), history = []\<rparr>
       = (Inl (TypeError ''exceptions must derive from BaseException''), [],
          \<lparr>collection = [], history = []\<rparr>)
   \<and> retry_with_backoff (\<lambda>w. (Inr (7 :: nat), w)) (- 2) 1
         \<lparr>collection = ([] :: nat chunk_record list), history = []\<rparr>
       = (Inl (TypeError ''exceptions must derive from BaseException''), [],
          \<lparr>collection = [], history = []\<rparr>)"
  using retry_with_backoff_no_attempts [of 0 "\<lambda>w. (Inr (7 :: nat), w)" 1
          "\<lparr>collection = ([] :: nat chunk_record list), history = []\<rparr>"]
        retry_with_backoff_no_attempts [of "- 2" "\<lambda>w. (Inr (7 :: nat), w)" 1
          "\<lparr>collection = ([] :: nat chunk_record list), history = []\<rparr>"]
  by simp

section \<open>The vector store\<close>




section \<open>Ingestion\<close>

text \<open>A generated document identifier holds hexadecimal digits and hyphens only.\<close>

lemma set_py_slice: "set (py_slice xs i j) \<subseteq> set xs"
proof -
  have "set (take a (drop b xs)) \<subseteq> set xs" for a b
    by (meson set_take_subset set_drop_subset subset_trans)
  then show ?thesis by (simp add: py_slice_def Let_def)
qed

lemma set_hex32: "set (hex32 n) \<subseteq> set ''0123456789abcdef''"
proof -
  have "''0123456789abcdef'' ! (m mod 16) \<in> set ''0123456789abcdef''" for m :: nat
    by (rule nth_mem) simp
  then show ?thesis unfolding hex32_def by auto
qed

lemma uuid_str_no_underscore: "CHR ''_'' \<notin> set (uuid_str u)"
proof -
  have "set (uuid_str u) \<subseteq> set (hex32 (unat u)) \<union> {CHR ''-''}"
    using set_py_slice [of "hex32 (unat u)"]
    by (auto simp: uuid_str_def Let_def)
  also have "\<dots> \<subseteq> set ''0123456789abcdef'' \<union> {CHR ''-''}"
    using set_hex32 by blast
  finally show ?thesis by auto
qed

lemma uuid_str_no_delimiter: "\<not> sublist ''___'' (uuid_str u)"
proof
  assume "sublist ''___'' (uuid_str u)"
  then have "set ''___'' \<subseteq> set (uuid_str u)" by (rule set_mono_sublist)
  with uuid_str_no_underscore [of u] show False by simp
qed

text \<open>Extraction, embedding and the retry loop leave the collection as it is.\<close>

lemma extract_pages_collection:
  "extract_pages doc n pts fps w = (r, w1) \<Longrightarrow> collection w1 = collection w"
  by (induction doc n pts fps w rule: extract_pages.induct)
     (auto simp: log_warning_def split: if_splits)

lemma extract_pdf_text_collection:
  "extract_pdf_text pdf_file w = (r, w1) \<Longrightarrow> collection w1 = collection w"
  by (auto simp: extract_pdf_text_def split: pdf.splits prod.splits sum.splits
           dest: extract_pages_collection)

lemma retry_loop_collection:
  "retry_loop func max_retries attempt delay le t0 w = (res, tr, w')
     \<Longrightarrow> \<forall>w r w1. func w = (r, w1) \<longrightarrow> collection w1 = collection w
     \<Longrightarrow> collection w' = collection w"
proof (induction func max_retries attempt delay le t0 w rule: retry_loop.induct)
  case (1 func max_retries attempt delay le t0 w)
  note eq = "1.prems"(1) [unfolded retry_loop.simps [of func max_retries attempt delay le t0 w]]
  show ?case
  proof (cases "attempt < max_retries")
    case False
    with eq show ?thesis by (auto split: option.splits)
  next
    case True
    obtain r w1 where fw: "func w = (r, w1)" by (cases "func w")
    from "1.prems"(2) fw have c1: "collection w1 = collection w" by blast
    show ?thesis
    proof (cases r)
      case (Inr v)
      with eq True fw c1 show ?thesis by auto
    next
      case (Inl e)
      show ?thesis
      proof (cases "is_Exception e")
        case False
        with eq True fw Inl c1 show ?thesis by auto
      next
        case exc: True
        define w2 where "w2 = log_warning (AttemptFailed (attempt + 1) max_retries e) w1"
        have c2: "collection w2 = collection w" using c1 by (simp add: w2_def log_warning_def)
        have nn: "\<not> \<not> is_Exception e" using exc by simp
        show ?thesis
        proof (cases "attempt < max_retries - 1")
          case more: True
          obtain se w3 where sl: "time_sleep delay w2 = (se, w3)" by (cases "time_sleep delay w2")
          then have c3: "collection w3 = collection w"
            using c2 by (auto simp: time_sleep_def split: if_splits)
          show ?thesis
          proof (cases se)
            case (Some e')
            with eq True fw Inl exc more sl c3 show ?thesis
              by (auto simp: w2_def Let_def)
          next
            case None
            with eq True fw Inl exc more sl
            have run: "retry_loop func max_retries (attempt + 1) (delay * 2) (Some e)
                         (t0 @ [Invoked (Inl e), Sleep delay]) w3 = (res, tr, w')"
              by (auto simp: w2_def Let_def)
            from "1.IH"(1) [OF True fw [symmetric] Inl nn w2_def more sl [symmetric] None run "1.prems"(2)] c3
            show ?thesis by simp
          qed
        next
          case nomore: False
          with eq True fw Inl exc
          have run: "retry_loop func max_retries (attempt + 1) delay (Some e)
                       (t0 @ [Invoked (Inl e)]) w2 = (res, tr, w')"
            by (auto simp: w2_def Let_def)
          from "1.IH"(2) [OF True fw [symmetric] Inl nn w2_def nomore run "1.prems"(2)] c2
          show ?thesis by simp
        qed
      qed
    qed
  qed
qed

lemma Embedder_encode_collection:
  "Embedder_encode self texts w = (r, w1) \<Longrightarrow> collection w1 = collection w"
  by (auto simp: Embedder_encode_def split: if_splits)

text \<open>
  The two loops of \<open>process_pdf\<close> number the chunks from 0 upwards and keep, for every
  chunk, the number of the page it came from.
\<close>

lemma page_chunks_loop_index:
  "page_chunks_loop chunks page_num acc (int (length acc)) = (acc', ci')
     \<Longrightarrow> map ce_chunk_index acc = map int [0..<length acc]
     \<Longrightarrow> ci' = int (length acc') \<and> map ce_chunk_index acc' = map int [0..<length acc']"
proof (induction chunks arbitrary: acc)
  case Nil
  then show ?case by auto
next
  case (Cons c chunks)
  let ?acc = "acc @ [\<lparr>ce_text = c, ce_page_number = page_num, ce_chunk_index = int (length acc)\<rparr>]"
  have l: "int (length acc) + 1 = int (length ?acc)" by simp
  from Cons.prems(1) have run: "page_chunks_loop chunks page_num ?acc (int (length ?acc)) = (acc', ci')"
    unfolding l [symmetric] by simp
  have "map ce_chunk_index ?acc = map int [0..<length ?acc]"
    using Cons.prems(2) by simp
  from Cons.IH [OF run this] show ?case .
qed

lemma page_chunks_loop_pages:
  "page_chunks_loop chunks page_num acc ci = (acc', ci')
     \<Longrightarrow> map (\<lambda>c. (ce_page_number c, ce_text c)) acc'
           = map (\<lambda>c. (ce_page_number c, ce_text c)) acc @ map (Pair page_num) chunks"
  by (induction chunks arbitrary: acc ci) auto

lemma pages_loop_index:
  "pages_loop self page_texts acc ci = Some all_chunks
     \<Longrightarrow> ci = int (length acc)
     \<Longrightarrow> map ce_chunk_index acc = map int [0..<length acc]
     \<Longrightarrow> map ce_chunk_index all_chunks = map int [0..<length all_chunks]"
proof (induction page_texts arbitrary: acc ci)
  case Nil
  then show ?case by simp
next
  case (Cons pt page_texts)
  obtain page_num page_text where pt: "pt = (page_num, page_text)" by (cases pt)
  from Cons.prems(1) pt obtain chunks
    where ch: "chunk (chunker self) (markdown_convert self page_text) = Some chunks"
    by (auto simp: Let_def split: option.splits)
  obtain acc' ci' where pl: "page_chunks_loop chunks page_num acc ci = (acc', ci')"
    by (cases "page_chunks_loop chunks page_num acc ci")
  from Cons.prems(1) pt ch pl have run: "pages_loop self page_texts acc' ci' = Some all_chunks"
    by (simp add: Let_def)
  from page_chunks_loop_index [OF pl [unfolded Cons.prems(2)] Cons.prems(3)]
  have "ci' = int (length acc')" "map ce_chunk_index acc' = map int [0..<length acc']"
    by simp_all
  from Cons.IH [OF run this] show ?case .
qed

lemma pages_loop_pages:
  "pages_loop self page_texts acc ci = Some all_chunks
     \<Longrightarrow> \<exists>page_chunks.
           map (\<lambda>(page_num, text). chunk (chunker self) (markdown_convert self text)) page_texts
             = map Some page_chunks
         \<and> map (\<lambda>c. (ce_page_number c, ce_text c)) all_chunks
             = map (\<lambda>c. (ce_page_number c, ce_text c)) acc
               @ concat (map (\<lambda>((page_num, text), chunks). map (Pair page_num) chunks)
                             (zip page_texts page_chunks))"
proof (induction page_texts arbitrary: acc ci)
  case Nil
  then show ?case by simp
next
  case (Cons pt page_texts)
  obtain page_num page_text where pt: "pt = (page_num, page_text)" by (cases pt)
  from Cons.prems(1) pt obtain chunks
    where ch: "chunk (chunker self) (markdown_convert self page_text) = Some chunks"
    by (auto simp: Let_def split: option.splits)
  obtain acc' ci' where pl: "page_chunks_loop chunks page_num acc ci = (acc', ci')"
    by (cases "page_chunks_loop chunks page_num acc ci")
  from Cons.prems(1) pt ch pl have run: "pages_loop self page_texts acc' ci' = Some all_chunks"
    by (simp add: Let_def)
  from Cons.IH [OF run] obtain page_chunks
    where pc: "map (\<lambda>(page_num, text). chunk (chunker self) (markdown_convert self text)) page_texts
                = map Some page_chunks"
      and tg: "map (\<lambda>c. (ce_page_number c, ce_text c)) all_chunks
                = map (\<lambda>c. (ce_page_number c, ce_text c)) acc'
                  @ concat (map (\<lambda>((page_num, text), chunks). map (Pair page_num) chunks)
                                (zip page_texts page_chunks))"
    by blast
  have "map (\<lambda>(page_num, text). chunk (chunker self) (markdown_convert self text)) (pt # page_texts)
          = map Some (chunks # page_chunks)"
    using pc ch pt by simp
  moreover have "map (\<lambda>c. (ce_page_number c, ce_text c)) all_chunks
             = map (\<lambda>c. (ce_page_number c, ce_text c)) acc
               @ concat (map (\<lambda>((page_num, text), chunks). map (Pair page_num) chunks)
                             (zip (pt # page_texts) (chunks # page_chunks)))"
    using tg page_chunks_loop_pages [OF pl] pt by simp
  ultimately show ?case by blast
qed

lemma add_chunks_stores:
  assumes "add_chunks (list_collection_add refuses) ids documents embeddings metadatas w = (None, w')"
    and "length documents = length ids" and "length metadatas = length ids"
  shows "\<exists>new. collection w' = collection w @ new \<and> map rec_id new = ids
            \<and> map rec_document new = documents \<and> map rec_metadata new = metadatas"
proof (cases "ids = []")
  case True
  with assms show ?thesis
    by (intro exI [of _ "[]"]) (auto simp: add_chunks_def log_warning_def)
next
  case False
  let ?z = "zip ids (zip documents (zip embeddings metadatas))"
  let ?new = "map (\<lambda>(i, d, e, m). \<lparr>rec_id = i, rec_document = d, rec_embedding = e,
                                     rec_metadata = m\<rparr>) ?z"
  from assms False have len: "length embeddings = length ids"
    by (auto simp: add_chunks_def split: if_splits)
  with assms False
  have run: "list_collection_add refuses ids documents embeddings metadatas w = (None, w')"
    by (cases "list_collection_add refuses ids documents embeddings metadatas w")
       (auto simp: add_chunks_def split: option.splits)
  then have w': "w' = w\<lparr>collection := collection w @ ?new\<rparr>"
    by (auto simp: list_collection_add_def Let_def split: option.splits)
  have f: "map rec_id ?new = map fst ?z"
    "map rec_document ?new = map fst (map snd ?z)"
    "map rec_metadata ?new = map snd (map snd (map snd ?z))"
    by (simp_all add: case_prod_beta comp_def)
  have z3: "map snd (zip embeddings metadatas) = metadatas"
    using len assms(3) by simp
  have z2: "map fst (zip documents (zip embeddings metadatas)) = documents"
    "map snd (zip documents (zip embeddings metadatas)) = zip embeddings metadatas"
    using len assms(2,3) by simp_all
  have z1: "map fst ?z = ids" "map snd ?z = zip documents (zip embeddings metadatas)"
    using len assms(2,3) by simp_all
  have "map rec_id ?new = ids" "map rec_document ?new = documents" "map rec_metadata ?new = metadatas"
    unfolding f z1 z2 z3 by simp_all
  with w' show ?thesis by (intro exI [of _ ?new]) simp
qed

lemma numbered_Cons:
  "zip (map (\<lambda>i. n + int i + 1) [0..<length (p # doc)]) (p # doc)
     = (n + 1, p) # zip (map (\<lambda>i. (n + 1) + int i + 1) [0..<length doc]) doc"
proof -
  have "[0..<length (p # doc)] = 0 # map Suc [0..<length doc]"
    by (simp add: upt_conv_Cons map_Suc_upt del: upt_Suc)
  then show ?thesis by (simp add: comp_def algebra_simps del: upt_Suc)
qed

lemma extract_pages_failed:
  "extract_pages doc n pts fps w = (Inr (pts', fps'), w1)
     \<Longrightarrow> fps' = fps @ map fst (filter (\<lambda>(k, p). page_failed p)
                                     (zip (map (\<lambda>i. n + int i + 1) [0..<length doc]) doc))"
proof (induction doc n pts fps w rule: extract_pages.induct)
  case (1 page_num page_texts failed_pages w)
  then show ?case by simp
next
  case (2 e doc page_num page_texts failed_pages w)
  then show ?case
    by (simp only: numbered_Cons) (auto split: if_splits)
next
  case (3 page_text doc page_num page_texts failed_pages w)
  then show ?case
    by (simp only: numbered_Cons) (auto split: if_splits)
qed

text \<open>The steps that a successful call of \<open>process_pdf\<close> went through.\<close>

lemma process_pdf_success:
  assumes "process_pdf self pdf_file filename random_bytes now w = Some (Inr result, w')"
  shows "\<exists>page_texts failed_pages w1 all_chunks embeddings tr w2.
           extract_pdf_text pdf_file w = (Inr (page_texts, failed_pages), w1)
         \<and> page_texts \<noteq> []
         \<and> pages_loop self page_texts [] 0 = Some all_chunks
         \<and> retry_with_backoff (Embedder_encode self (map ce_text all_chunks)) 3 1 w1
             = (Inr embeddings, tr, w2)
         \<and> add_chunks (list_collection_add (collection_refuses self))
               (map (\<lambda>c. uuid_str (uuid4 random_bytes) @ ''___'' @ str_int (ce_chunk_index c)) all_chunks)
               (map ce_text all_chunks) embeddings
               (map (\<lambda>c. [(''doc_id'', MStr (uuid_str (uuid4 random_bytes))),
                            (''source_filename'', MStr filename),
                            (''page_number'', MInt (ce_page_number c)),
                            (''chunk_index'', MInt (ce_chunk_index c)),
                            (''ingested_at'', MStr now)]) all_chunks) w2
             = (None, w')
         \<and> result = \<lparr>res_doc_id = uuid_str (uuid4 random_bytes),
                       res_status = (if failed_pages \<noteq> [] then ''partial'' else ''ingested''),
                       res_chunks = int (length all_chunks),
                       res_failed_pages = failed_pages\<rparr>"
proof -
  obtain r w1 where ex: "extract_pdf_text pdf_file w = (r, w1)"
    by (cases "extract_pdf_text pdf_file w")
  from assms ex obtain page_texts failed_pages where r: "r = Inr (page_texts, failed_pages)"
    by (cases r) (auto simp: process_pdf_def Let_def)
  from assms ex r have ne: "page_texts \<noteq> []"
    by (auto simp: process_pdf_def Let_def split: if_splits)
  from assms ex r ne obtain all_chunks where pl: "pages_loop self page_texts [] 0 = Some all_chunks"
    by (cases "pages_loop self page_texts [] 0") (auto simp: process_pdf_def Let_def)
  obtain er tr w2 where rt: "retry_with_backoff (Embedder_encode self (map ce_text all_chunks)) 3 1 w1
             = (er, tr, w2)"
    by (cases "retry_with_backoff (Embedder_encode self (map ce_text all_chunks)) 3 1 w1")
  from assms ex r ne pl rt obtain embeddings where er: "er = Inr embeddings"
    by (cases er) (auto simp: process_pdf_def Let_def)
  let ?ids = "map (\<lambda>c. uuid_str (uuid4 random_bytes) @ ''___'' @ str_int (ce_chunk_index c)) all_chunks"
  let ?metas = "map (\<lambda>c. [(''doc_id'', MStr (uuid_str (uuid4 random_bytes))),
                            (''source_filename'', MStr filename),
                            (''page_number'', MInt (ce_page_number c)),
                            (''chunk_index'', MInt (ce_chunk_index c)),
                            (''ingested_at'', MStr now)]) all_chunks"
  obtain ae w3 where ad: "add_chunks (list_collection_add (collection_refuses self))
                            ?ids (map ce_text all_chunks) embeddings ?metas w2 = (ae, w3)"
    by (cases "add_chunks (list_collection_add (collection_refuses self))
                 ?ids (map ce_text all_chunks) embeddings ?metas w2")
  from assms ex r ne pl rt er ad have ae: "ae = None"
    by (cases ae) (auto simp: process_pdf_def Let_def)
  from assms ex r ne pl rt er ad ae
  have "w3 = w'" and "result = \<lparr>res_doc_id = uuid_str (uuid4 random_bytes),
                       res_status = (if failed_pages \<noteq> [] then ''partial'' else ''ingested''),
                       res_chunks = int (length all_chunks),
                       res_failed_pages = failed_pages\<rparr>"
    by (simp_all add: process_pdf_def Let_def)
  with ex r ne pl rt er ad ae show ?thesis by blast
qed

lemma process_pdf_stored:
  assumes "process_pdf self pdf_file filename random_bytes now w = Some (Inr result, w')"
  shows "\<exists>page_texts failed_pages w1 all_chunks new.
           extract_pdf_text pdf_file w = (Inr (page_texts, failed_pages), w1)
         \<and> pages_loop self page_texts [] 0 = Some all_chunks
         \<and> collection w' = collection w @ new
         \<and> map rec_id new
             = map (\<lambda>c. uuid_str (uuid4 random_bytes) @ ''___'' @ str_int (ce_chunk_index c)) all_chunks
         \<and> map rec_document new = map ce_text all_chunks
         \<and> map rec_metadata new
             = map (\<lambda>c. [(''doc_id'', MStr (uuid_str (uuid4 random_bytes))),
                          (''source_filename'', MStr filename),
                          (''page_number'', MInt (ce_page_number c)),
                          (''chunk_index'', MInt (ce_chunk_index c)),
                          (''ingested_at'', MStr now)]) all_chunks
         \<and> result = \<lparr>res_doc_id = uuid_str (uuid4 random_bytes),
                       res_status = (if failed_pages \<noteq> [] then ''partial'' else ''ingested''),
                       res_chunks = int (length all_chunks),
                       res_failed_pages = failed_pages\<rparr>"
proof -
  from process_pdf_success [OF assms]
  obtain page_texts failed_pages w1 all_chunks embeddings tr w2 where
    ex: "extract_pdf_text pdf_file w = (Inr (page_texts, failed_pages), w1)"
    and pl: "pages_loop self page_texts [] 0 = Some all_chunks"
    and rt: "retry_with_backoff (Embedder_encode self (map ce_text all_chunks)) 3 1 w1
             = (Inr embeddings, tr, w2)"
    and ad: "add_chunks (list_collection_add (collection_refuses self))
               (map (\<lambda>c. uuid_str (uuid4 random_bytes) @ ''___'' @ str_int (ce_chunk_index c)) all_chunks)
               (map ce_text all_chunks) embeddings
               (map (\<lambda>c. [(''doc_id'', MStr (uuid_str (uuid4 random_bytes))),
                            (''source_filename'', MStr filename),
                            (''page_number'', MInt (ce_page_number c)),
                            (''chunk_index'', MInt (ce_chunk_index c)),
                            (''ingested_at'', MStr now)]) all_chunks) w2
             = (None, w')"
    and rs: "result = \<lparr>res_doc_id = uuid_str (uuid4 random_bytes),
                       res_status = (if failed_pages \<noteq> [] then ''partial'' else ''ingested''),
                       res_chunks = int (length all_chunks),
                       res_failed_pages = failed_pages\<rparr>"
    by blast
  have c1: "collection w1 = collection w" by (rule extract_pdf_text_collection [OF ex])
  have c2: "collection w2 = collection w1"
    using retry_loop_collection [OF rt [unfolded retry_with_backoff_def]]
          Embedder_encode_collection [of self "map ce_text all_chunks"]
    by blast
  from add_chunks_stores [OF ad] obtain new where
    "collection w' = collection w2 @ new"
    "map rec_id new
       = map (\<lambda>c. uuid_str (uuid4 random_bytes) @ ''___'' @ str_int (ce_chunk_index c)) all_chunks"
    "map rec_document new = map ce_text all_chunks"
    "map rec_metadata new
             = map (\<lambda>c. [(''doc_id'', MStr (uuid_str (uuid4 random_bytes))),
                          (''source_filename'', MStr filename),
                          (''page_number'', MInt (ce_page_number c)),
                          (''chunk_index'', MInt (ce_chunk_index c)),
                          (''ingested_at'', MStr now)]) all_chunks"
    by auto
  with ex pl rs c1 c2 show ?thesis by auto
qed

lemma extract_pdf_text_failed:
  assumes "extract_pdf_text (Document doc) w = (Inr (page_texts, failed_pages), w1)"
  shows "failed_pages = map fst (filter (\<lambda>(n, p). page_failed p) (numbered doc))"
proof -
  from assms have "extract_pages doc 0 [] [] w = (Inr (page_texts, failed_pages), w1)"
    by (auto simp: extract_pdf_text_def split: prod.splits sum.splits if_splits)
  from extract_pages_failed [OF this] show ?thesis
    by (simp add: numbered_def)
qed

text \<open>
  Claim C3. When extraction returns no successful page, \<open>process_pdf\<close> raises its
  \<open>ValueError\<close> in the world that extraction left: the collection and its count are what
  they were before the call, so no record of the new document exists.
\<close>

theorem process_pdf_no_pages:
  assumes "extract_pdf_text pdf_file w = (Inr ([], failed_pages), w1)"
  shows "process_pdf self pdf_file filename random_bytes now w
           = Some (Inl (ValueError
               ''No text could be extracted from PDF. It may be image-only (OCR not supported).''), w1)
       \<and> collection w1 = collection w
       \<and> count w1 = count w"
proof -
  have c: "collection w1 = collection w" by (rule extract_pdf_text_collection [OF assms])
  from assms c show ?thesis by (simp add: process_pdf_def count_def)
qed

text \<open>A PDF whose first page is blank and whose second page cannot be read.\<close>

theorem process_pdf_no_pages_witness:
  "extract_pdf_text blank_pdf empty_world
     = (Inr ([], [1, 2]), \<lparr>collection = [], history = [Warned (PageImageOnly 1)]\<rparr>)
   \<and> process_pdf example_services blank_pdf ''scan.pdf'' 0 ''2024-01-01T00:00:00'' empty_world
     = Some (Inl (ValueError
               ''No text could be extracted from PDF. It may be image-only (OCR not supported).''),
             \<lparr>collection = [], history = [Warned (PageImageOnly 1)]\<rparr>)
   \<and> count \<lparr>collection = ([] :: nat chunk_record list), history = [Warned (PageImageOnly 1)]\<rparr>
     = count empty_world"
proof -
  have ex: "extract_pdf_text blank_pdf empty_world
     = (Inr ([], [1, 2]), \<lparr>collection = [], history = [Warned (PageImageOnly 1)]\<rparr>)"
    by (simp add: extract_pdf_text_def blank_pdf_def empty_world_def log_warning_def
                  py_strip_def py_isspace_def)
  from process_pdf_no_pages [OF ex, of example_services "''scan.pdf''" 0 "''2024-01-01T00:00:00''"] ex
  show ?thesis by simp
qed

text \<open>
  Claim C9. After a successful call the returned \<open>failed_pages\<close> is the list that
  extraction produced, which for a document is the list of the numbers of its failed
  pages in order; the status is \<open>partial\<close> exactly when that list is non-empty and
  \<open>ingested\<close> exactly when it is empty; and \<open>chunks\<close> is the number of chunks that the
  page loop produced, which is the number of records appended to the collection, each
  carrying the returned \<open>doc_id\<close>.
\<close>

theorem process_pdf_report:
  assumes "process_pdf self pdf_file filename random_bytes now w = Some (Inr result, w')"
  shows "\<exists>page_texts failed_pages w1 all_chunks new.
           extract_pdf_text pdf_file w = (Inr (page_texts, failed_pages), w1)
         \<and> res_failed_pages result = failed_pages
         \<and> (\<forall>doc. pdf_file = Document doc \<longrightarrow>
                failed_pages = map fst (filter (\<lambda>(n, p). page_failed p) (numbered doc)))
         \<and> (res_status result = ''partial'' \<longleftrightarrow> failed_pages \<noteq> [])
         \<and> (res_status result = ''ingested'' \<longleftrightarrow> failed_pages = [])
         \<and> pages_loop self page_texts [] 0 = Some all_chunks
         \<and> res_chunks result = int (length all_chunks)
         \<and> collection w' = collection w @ new
         \<and> length new = length all_chunks
         \<and> (\<forall>r\<in>set new. map_of (rec_metadata r) ''doc_id'' = Some (MStr (res_doc_id result)))"
proof -
  from process_pdf_stored [OF assms]
  obtain page_texts failed_pages w1 all_chunks new where
    ex: "extract_pdf_text pdf_file w = (Inr (page_texts, failed_pages), w1)"
    and pl: "pages_loop self page_texts [] 0 = Some all_chunks"
    and co: "collection w' = collection w @ new"
    and md: "map rec_metadata new
             = map (\<lambda>c. [(''doc_id'', MStr (uuid_str (uuid4 random_bytes))),
                          (''source_filename'', MStr filename),
                          (''page_number'', MInt (ce_page_number c)),
                          (''chunk_index'', MInt (ce_chunk_index c)),
                          (''ingested_at'', MStr now)]) all_chunks"
    and rs: "result = \<lparr>res_doc_id = uuid_str (uuid4 random_bytes),
                       res_status = (if failed_pages \<noteq> [] then ''partial'' else ''ingested''),
                       res_chunks = int (length all_chunks),
                       res_failed_pages = failed_pages\<rparr>"
    by blast
  have fl: "\<forall>doc. pdf_file = Document doc \<longrightarrow>
                failed_pages = map fst (filter (\<lambda>(n, p). page_failed p) (numbered doc))"
  proof (intro allI impI)
    fix doc assume "pdf_file = Document doc"
    with ex show "failed_pages = map fst (filter (\<lambda>(n, p). page_failed p) (numbered doc))"
      by (simp add: extract_pdf_text_failed)
  qed
  from arg_cong [OF md, of length] have ln: "length new = length all_chunks"
    by simp
  let ?meta = "\<lambda>c. [(''doc_id'', MStr (uuid_str (uuid4 random_bytes))),
                          (''source_filename'', MStr filename),
                          (''page_number'', MInt (ce_page_number c)),
                          (''chunk_index'', MInt (ce_chunk_index c)),
                          (''ingested_at'', MStr now)]"
  have di: "res_doc_id result = uuid_str (uuid4 random_bytes)" using rs by simp
  have id: "\<forall>r\<in>set new. map_of (rec_metadata r) ''doc_id'' = Some (MStr (res_doc_id result))"
  proof
    fix r assume "r \<in> set new"
    then have "rec_metadata r \<in> set (map rec_metadata new)" by simp
    then have "rec_metadata r \<in> ?meta ` set all_chunks" unfolding md set_map .
    then obtain c where "rec_metadata r = ?meta c" "c \<in> set all_chunks" by (rule imageE)
    then show "map_of (rec_metadata r) ''doc_id'' = Some (MStr (res_doc_id result))"
      unfolding di by (simp only: map_of.simps fst_conv snd_conv fun_upd_same)
  qed
  have st: "(res_status result = ''partial'' \<longleftrightarrow> failed_pages \<noteq> [])"
    "(res_status result = ''ingested'' \<longleftrightarrow> failed_pages = [])"
    using rs by simp_all
  have fp: "res_failed_pages result = failed_pages" and ch: "res_chunks result = int (length all_chunks)"
    using rs by simp_all
  show ?thesis
  proof (intro exI conjI)
    show "extract_pdf_text pdf_file w = (Inr (page_texts, failed_pages), w1)" by (rule ex)
    show "res_failed_pages result = failed_pages" by (rule fp)
    show "\<forall>doc. pdf_file = Document doc \<longrightarrow>
                failed_pages = map fst (filter (\<lambda>(n, p). page_failed p) (numbered doc))" by (rule fl)
    show "res_status result = ''partial'' \<longleftrightarrow> failed_pages \<noteq> []" by (rule st)
    show "res_status result = ''ingested'' \<longleftrightarrow> failed_pages = []" by (rule st)
    show "pages_loop self page_texts [] 0 = Some all_chunks" by (rule pl)
    show "res_chunks result = int (length all_chunks)" by (rule ch)
    show "collection w' = collection w @ new" by (rule co)
    show "length new = length all_chunks" by (rule ln)
    show "\<forall>r\<in>set new. map_of (rec_metadata r) ''doc_id'' = Some (MStr (res_doc_id result))" by (rule id)
  qed
qed


text \<open>The example PDF, step by step.\<close>

lemma example_extract:
  "extract_pdf_text example_pdf empty_world
     = (Inr ([(1, ''hello world page''), (3, ''second page!'')], [2]),
        \<lparr>collection = [], history = [Warned (PageImageOnly 2)]\<rparr>)"
  by (simp add: extract_pdf_text_def example_pdf_def empty_world_def log_warning_def
                py_strip_def py_isspace_def)

lemma example_chunks:
  "chunk (chunker example_services) ''hello world page'' = Some [''hello wo'', ''world pa'', ''page'']"
  "chunk (chunker example_services) ''second page!'' = Some [''second p'', '' page!'']"
  by (simp_all add: chunk_def example_services_def TextChunker_init_def chunk_loop.simps py_slice_def)

lemma example_pages_loop:
  "pages_loop example_services [(1, ''hello world page''), (3, ''second page!'')] [] 0
     = Some [\<lparr>ce_text = ''hello wo'', ce_page_number = 1, ce_chunk_index = 0\<rparr>,
             \<lparr>ce_text = ''world pa'', ce_page_number = 1, ce_chunk_index = 1\<rparr>,
             \<lparr>ce_text = ''page'', ce_page_number = 1, ce_chunk_index = 2\<rparr>,
             \<lparr>ce_text = ''second p'', ce_page_number = 3, ce_chunk_index = 3\<rparr>,
             \<lparr>ce_text = '' page!'', ce_page_number = 3, ce_chunk_index = 4\<rparr>]"
proof -
  have mc: "markdown_convert example_services = (\<lambda>t. t)" by (simp add: example_services_def)
  show ?thesis by (simp add: mc example_chunks)
qed

lemma example_embed:
  "retry_with_backoff
     (Embedder_encode example_services [''hello wo'', ''world pa'', ''page'', ''second p'', '' page!''])
     3 1 \<lparr>collection = [], history = [Warned (PageImageOnly 2)]\<rparr>
   = (Inr [8, 8, 4, 8, 6],
      [Invoked (Inr [8, 8, 4, 8, 6])],
      \<lparr>collection = [],
       history = [Warned (PageImageOnly 2),
                  EmbeddingModelRun [''hello wo'', ''world pa'', ''page'', ''second p'', '' page!'']]\<rparr>)"
  by (simp add: retry_with_backoff_def retry_loop.simps Embedder_encode_def example_services_def)

lemma example_collection_refuses:
  "collection_refuses example_services = example_refuses"
  by (simp add: example_services_def)

lemma example_ingestion:
  "process_pdf example_services example_pdf ''notes.pdf'' 0 ''2024-01-01T00:00:00'' empty_world
     = Some (Inr example_result, example_stored)"
  by (simp add: process_pdf_def Let_def example_extract example_pages_loop example_embed
                add_chunks_def list_collection_add_def example_collection_refuses
                example_refuses_def example_result_def example_stored_def
                str_int_def str_nat.simps
           del: pages_loop.simps)

lemma map_eq_nth:
  assumes "map f xs = map g ys" and "i < length xs"
  shows "f (xs ! i) = g (ys ! i)"
proof -
  from assms(1) have "length xs = length ys" by (metis length_map)
  with assms show ?thesis by (metis nth_map)
qed

text \<open>
  The example PDF: page 2 fails, pages 1 and 3 give three and two chunks, the status is
  \<open>partial\<close>.
\<close>

theorem process_pdf_report_witness:
  "process_pdf example_services example_pdf ''notes.pdf'' 0 ''2024-01-01T00:00:00'' empty_world
     = Some (Inr example_result, example_stored)
   \<and> res_status example_result = ''partial''
   \<and> res_failed_pages example_result = [2]
   \<and> res_chunks example_result = 5
   \<and> length (collection example_stored) = 5
   \<and> (\<exists>page_texts failed_pages w1 all_chunks new.
           extract_pdf_text example_pdf empty_world = (Inr (page_texts, failed_pages), w1)
         \<and> res_failed_pages example_result = failed_pages
         \<and> (res_status example_result = ''partial'' \<longleftrightarrow> failed_pages \<noteq> [])
         \<and> pages_loop example_services page_texts [] 0 = Some all_chunks
         \<and> res_chunks example_result = int (length all_chunks)
         \<and> collection example_stored = collection empty_world @ new
         \<and> length new = length all_chunks)"
proof -
  from process_pdf_report [OF example_ingestion]
  obtain page_texts failed_pages w1 all_chunks new where
    "extract_pdf_text example_pdf empty_world = (Inr (page_texts, failed_pages), w1)"
    "res_failed_pages example_result = failed_pages"
    "res_status example_result = ''partial'' \<longleftrightarrow> failed_pages \<noteq> []"
    "pages_loop example_services page_texts [] 0 = Some all_chunks"
    "res_chunks example_result = int (length all_chunks)"
    "collection example_stored = collection empty_world @ new"
    "length new = length all_chunks"
    by blast
  then have "\<exists>page_texts failed_pages w1 all_chunks new.
           extract_pdf_text example_pdf empty_world = (Inr (page_texts, failed_pages), w1)
         \<and> res_failed_pages example_result = failed_pages
         \<and> (res_status example_result = ''partial'' \<longleftrightarrow> failed_pages \<noteq> [])
         \<and> pages_loop example_services page_texts [] 0 = Some all_chunks
         \<and> res_chunks example_result = int (length all_chunks)
         \<and> collection example_stored = collection empty_world @ new
         \<and> length new = length all_chunks"
    by blast
  moreover have "res_status example_result = ''partial''" "res_failed_pages example_result = [2]"
    "res_chunks example_result = 5" "length (collection example_stored) = 5"
    by (simp_all add: example_result_def example_stored_def)
  ultimately show ?thesis using example_ingestion by blast
qed

text \<open>
  Claim C5. After a successful call the returned \<open>doc_id\<close> is the text of the generated
  UUID, in which the delimiter \<open>___\<close> does not occur. The records appended to the
  collection are as many as the returned chunk count; the \<open>i\<close>-th of them (from 0) has the
  identifier \<open>doc_id\<close>, \<open>___\<close>, \<open>str(i)\<close> and the \<open>chunk_index\<close> \<open>i\<close>. Listed in stored order,
  their page numbers and texts are the chunks of the first extracted page, then those of
  the second, and so on: the index runs on across pages.
\<close>

theorem process_pdf_chunk_ids:
  assumes "process_pdf self pdf_file filename random_bytes now w = Some (Inr result, w')"
  shows "\<exists>new page_texts failed_pages w1 page_chunks.
           res_doc_id result = uuid_str (uuid4 random_bytes)
         \<and> \<not> sublist ''___'' (res_doc_id result)
         \<and> collection w' = collection w @ new
         \<and> res_chunks result = int (length new)
         \<and> (\<forall>i<length new.
                rec_id (new ! i) = res_doc_id result @ ''___'' @ str_int (int i)
              \<and> map_of (rec_metadata (new ! i)) ''chunk_index'' = Some (MInt (int i))
              \<and> map_of (rec_metadata (new ! i)) ''doc_id'' = Some (MStr (res_doc_id result)))
         \<and> extract_pdf_text pdf_file w = (Inr (page_texts, failed_pages), w1)
         \<and> map (\<lambda>(page_num, text). chunk (chunker self) (markdown_convert self text)) page_texts
             = map Some page_chunks
         \<and> map (\<lambda>r. (map_of (rec_metadata r) ''page_number'', rec_document r)) new
             = map (\<lambda>(page_num, c). (Some (MInt page_num), c))
                   (concat (map (\<lambda>((page_num, text), chunks). map (Pair page_num) chunks)
                                (zip page_texts page_chunks)))"
proof -
  let ?doc_id = "uuid_str (uuid4 random_bytes)"
  let ?id = "\<lambda>c. ?doc_id @ ''___'' @ str_int (ce_chunk_index c)"
  let ?meta = "\<lambda>c. [(''doc_id'', MStr ?doc_id),
                          (''source_filename'', MStr filename),
                          (''page_number'', MInt (ce_page_number c)),
                          (''chunk_index'', MInt (ce_chunk_index c)),
                          (''ingested_at'', MStr now)]"
  from process_pdf_stored [OF assms]
  obtain page_texts failed_pages w1 all_chunks new where
    ex: "extract_pdf_text pdf_file w = (Inr (page_texts, failed_pages), w1)"
    and pl: "pages_loop self page_texts [] 0 = Some all_chunks"
    and co: "collection w' = collection w @ new"
    and ids: "map rec_id new = map ?id all_chunks"
    and dc: "map rec_document new = map ce_text all_chunks"
    and md: "map rec_metadata new = map ?meta all_chunks"
    and rs: "result = \<lparr>res_doc_id = ?doc_id,
                       res_status = (if failed_pages \<noteq> [] then ''partial'' else ''ingested''),
                       res_chunks = int (length all_chunks),
                       res_failed_pages = failed_pages\<rparr>"
    by blast
  have di: "res_doc_id result = ?doc_id" and rc: "res_chunks result = int (length all_chunks)"
    using rs by simp_all
  from arg_cong [OF dc, of length] have ln: "length new = length all_chunks" by simp
  have ix: "map ce_chunk_index all_chunks = map int [0..<length all_chunks]"
    by (rule pages_loop_index [OF pl]) simp_all
  have ci: "ce_chunk_index (all_chunks ! i) = int i" if "i < length all_chunks" for i
    using map_eq_nth [OF ix that] that by simp
  from pages_loop_pages [OF pl] obtain page_chunks where
    pc: "map (\<lambda>(page_num, text). chunk (chunker self) (markdown_convert self text)) page_texts
             = map Some page_chunks"
    and tg: "map (\<lambda>c. (ce_page_number c, ce_text c)) all_chunks
             = concat (map (\<lambda>((page_num, text), chunks). map (Pair page_num) chunks)
                           (zip page_texts page_chunks))"
    by auto
  have p1: "\<not> sublist ''___'' (res_doc_id result)"
    unfolding di by (rule uuid_str_no_delimiter)
  have p2: "res_chunks result = int (length new)" using rc ln by simp
  have p3: "\<forall>i<length new.
                rec_id (new ! i) = res_doc_id result @ ''___'' @ str_int (int i)
              \<and> map_of (rec_metadata (new ! i)) ''chunk_index'' = Some (MInt (int i))
              \<and> map_of (rec_metadata (new ! i)) ''doc_id'' = Some (MStr (res_doc_id result))"
  proof (intro allI impI)
    fix i assume i: "i < length new"
    then have i': "i < length all_chunks" using ln by simp
    have a: "rec_id (new ! i) = ?id (all_chunks ! i)" by (rule map_eq_nth [OF ids i])
    have b: "rec_metadata (new ! i) = ?meta (all_chunks ! i)" by (rule map_eq_nth [OF md i])
    show "rec_id (new ! i) = res_doc_id result @ ''___'' @ str_int (int i)
              \<and> map_of (rec_metadata (new ! i)) ''chunk_index'' = Some (MInt (int i))
              \<and> map_of (rec_metadata (new ! i)) ''doc_id'' = Some (MStr (res_doc_id result))"
      unfolding a b di ci [OF i'] by simp
  qed
  have "map (\<lambda>r. (map_of (rec_metadata r) ''page_number'', rec_document r)) new
          = map (\<lambda>c. (Some (MInt (ce_page_number c)), ce_text c)) all_chunks"
  proof (rule nth_equalityI)
    show "length (map (\<lambda>r. (map_of (rec_metadata r) ''page_number'', rec_document r)) new)
            = length (map (\<lambda>c. (Some (MInt (ce_page_number c)), ce_text c)) all_chunks)"
      using ln by simp
  next
    fix i assume "i < length (map (\<lambda>r. (map_of (rec_metadata r) ''page_number'', rec_document r)) new)"
    then have i: "i < length new" by simp
    then have i': "i < length all_chunks" using ln by simp
    have b: "rec_metadata (new ! i) = ?meta (all_chunks ! i)" by (rule map_eq_nth [OF md i])
    have c: "rec_document (new ! i) = ce_text (all_chunks ! i)" by (rule map_eq_nth [OF dc i])
    show "map (\<lambda>r. (map_of (rec_metadata r) ''page_number'', rec_document r)) new ! i
            = map (\<lambda>c. (Some (MInt (ce_page_number c)), ce_text c)) all_chunks ! i"
      using i i' by (simp add: b c)
  qed
  also have "\<dots> = map (\<lambda>(page_num, c). (Some (MInt page_num), c))
                       (map (\<lambda>c. (ce_page_number c, ce_text c)) all_chunks)"
    by simp
  finally have p4: "map (\<lambda>r. (map_of (rec_metadata r) ''page_number'', rec_document r)) new
             = map (\<lambda>(page_num, c). (Some (MInt page_num), c))
                   (concat (map (\<lambda>((page_num, text), chunks). map (Pair page_num) chunks)
                                (zip page_texts page_chunks)))"
    unfolding tg .
  show ?thesis
  proof (intro exI conjI)
    show "res_doc_id result = uuid_str (uuid4 random_bytes)" by (rule di)
    show "\<not> sublist ''___'' (res_doc_id result)" by (rule p1)
    show "collection w' = collection w @ new" by (rule co)
    show "res_chunks result = int (length new)" by (rule p2)
    show "\<forall>i<length new.
                rec_id (new ! i) = res_doc_id result @ ''___'' @ str_int (int i)
              \<and> map_of (rec_metadata (new ! i)) ''chunk_index'' = Some (MInt (int i))
              \<and> map_of (rec_metadata (new ! i)) ''doc_id'' = Some (MStr (res_doc_id result))"
      by (rule p3)
    show "extract_pdf_text pdf_file w = (Inr (page_texts, failed_pages), w1)" by (rule ex)
    show "map (\<lambda>(page_num, text). chunk (chunker self) (markdown_convert self text)) page_texts
             = map Some page_chunks" by (rule pc)
    show "map (\<lambda>r. (map_of (rec_metadata r) ''page_number'', rec_document r)) new
             = map (\<lambda>(page_num, c). (Some (MInt page_num), c))
                   (concat (map (\<lambda>((page_num, text), chunks). map (Pair page_num) chunks)
                                (zip page_texts page_chunks)))" by (rule p4)
  qed
qed

text \<open>The five records of the example have the indices 0 to 4, across pages 1 and 3.\<close>

theorem process_pdf_chunk_ids_witness:
  "process_pdf example_services example_pdf ''notes.pdf'' 0 ''2024-01-01T00:00:00'' empty_world
     = Some (Inr example_result, example_stored)
   \<and> map rec_id (collection example_stored)
       = [uuid_str (uuid4 0) @ ''___0'', uuid_str (uuid4 0) @ ''___1'', uuid_str (uuid4 0) @ ''___2'',
          uuid_str (uuid4 0) @ ''___3'', uuid_str (uuid4 0) @ ''___4'']
   \<and> map (\<lambda>r. map_of (rec_metadata r) ''page_number'') (collection example_stored)
       = [Some (MInt 1), Some (MInt 1), Some (MInt 1), Some (MInt 3), Some (MInt 3)]
   \<and> (\<exists>new. collection example_stored = collection empty_world @ new
            \<and> res_chunks example_result = int (length new)
            \<and> \<not> sublist ''___'' (res_doc_id example_result))"
proof -
  from process_pdf_chunk_ids [OF example_ingestion]
  obtain new where "collection example_stored = collection empty_world @ new"
    "res_chunks example_result = int (length new)"
    "\<not> sublist ''___'' (res_doc_id example_result)"
    by blast
  then have "\<exists>new. collection example_stored = collection empty_world @ new
            \<and> res_chunks example_result = int (length new)
            \<and> \<not> sublist ''___'' (res_doc_id example_result)"
    by blast
  moreover have "map rec_id (collection example_stored)
       = [uuid_str (uuid4 0) @ ''___0'', uuid_str (uuid4 0) @ ''___1'', uuid_str (uuid4 0) @ ''___2'',
          uuid_str (uuid4 0) @ ''___3'', uuid_str (uuid4 0) @ ''___4'']"
    by (simp add: example_stored_def str_int_def str_nat.simps)
  moreover have "map (\<lambda>r. map_of (rec_metadata r) ''page_number'') (collection example_stored)
       = [Some (MInt 1), Some (MInt 1), Some (MInt 1), Some (MInt 3), Some (MInt 3)]"
    by (simp add: example_stored_def)
  ultimately show ?thesis using example_ingestion by blast
qed

section \<open>Queries\<close>

text \<open>
  Whatever \<open>answer_query\<close> returns, the history is the one it found, then the run of the
  embedding model on the question, then at most one more event.
\<close>

lemma answer_query_world:
  "\<exists>r rest. answer_query self query k w
              = (r, w\<lparr>history := history w @ EmbeddingModelRun [query] # rest\<rparr>)"
proof -
  define w1 where "w1 = w\<lparr>history := history w @ [EmbeddingModelRun [query]]\<rparr>"
  obtain r w' where run: "answer_query self query k w = (r, w')"
    by (cases "answer_query self query k w")
  have emb: "Embedder_encode self [query] w = (embedding_model self w [query], w1)"
    by (simp add: Embedder_encode_def w1_def)
  from run have "w' = w1 \<or> (\<exists>m. w' = log_warning m w1)
                     \<or> (\<exists>e. w' = w1\<lparr>history := history w1 @ [e]\<rparr>)"
    unfolding answer_query_def emb Let_def
    by (auto split: sum.splits list.splits if_splits)
  then have "\<exists>rest. w' = w\<lparr>history := history w @ EmbeddingModelRun [query] # rest\<rparr>"
  proof (elim disjE exE)
    assume "w' = w1"
    then show ?thesis by (intro exI [of _ "[]"]) (simp add: w1_def)
  next
    fix m assume "w' = log_warning m w1"
    then show ?thesis by (intro exI [of _ "[Warned m]"]) (simp add: w1_def log_warning_def)
  next
    fix e assume "w' = w1\<lparr>history := history w1 @ [e]\<rparr>"
    then show ?thesis by (intro exI [of _ "[e]"]) (simp add: w1_def)
  qed
  with run show ?thesis by auto
qed

text \<open>With a vector for the question and no identifier retrieved, the answer is the refusal.\<close>

lemma answer_query_no_results:
  assumes "embedding_model self w [query] = Inr (v # vs)"
    and "query_similar self v k (w\<lparr>history := history w @ [EmbeddingModelRun [query]]\<rparr>) = Inr results"
    and "q_ids results = []"
  shows "answer_query self query k w
           = (Inr \<lparr>qr_answer = ''I don't know.'', qr_citations = [], qr_retrieved_chunks = []\<rparr>,
              w\<lparr>history := history w @ [EmbeddingModelRun [query], Warned NoResultsFound]\<rparr>)"
  using assms by (simp add: answer_query_def Embedder_encode_def log_warning_def)

text \<open>The example services asked a question in the empty world.\<close>

lemma example_empty_answer:
  "answer_query example_services ''Why?'' 5 empty_world
     = (Inr \<lparr>qr_answer = ''I don't know.'', qr_citations = [], qr_retrieved_chunks = []\<rparr>,
        \<lparr>collection = [], history = [EmbeddingModelRun [''Why?''], Warned NoResultsFound]\<rparr>)"
  by (simp add: answer_query_def Embedder_encode_def query_similar_def example_services_def
                empty_world_def log_warning_def)

text \<open>
  Claim C4, as amended. Let the collection be empty. \<open>_process_query\<close>, which serves the
  two query endpoints, returns the refusal answer with no citations and no retrieved
  chunks, and the world after the call is the world before it: neither model has run.
  \<open>rag_callback\<close>, which serves the voice endpoint, returns another sentence, and again
  the world is unchanged. \<open>answer_query\<close> has no such short cut: whatever it returns, the
  first thing it has done is to run the embedding model on the question; when that
  gives a vector and retrieval gives no identifier, it returns the refusal answer with
  no citations and no retrieved chunks after a warning, and the generation model has
  not run.
\<close>

theorem empty_store_answers:
  assumes "count w = 0"
  shows "process_query self response_model query w
           = (Inr \<lparr>qr_answer = ''I don't know.'', qr_citations = [], qr_retrieved_chunks = []\<rparr>, w)
       \<and> rag_callback self query w
           = (Inr ''I don't have any documents to answer from. Please upload some documents first.'', w)
       \<and> (\<exists>r rest. answer_query self query k w
                      = (r, w\<lparr>history := history w @ EmbeddingModelRun [query] # rest\<rparr>))
       \<and> (\<forall>v vs results.
             embedding_model self w [query] = Inr (v # vs)
             \<and> query_similar self v k (w\<lparr>history := history w @ [EmbeddingModelRun [query]]\<rparr>)
                 = Inr results
             \<and> q_ids results = []
           \<longrightarrow> answer_query self query k w
                 = (Inr \<lparr>qr_answer = ''I don't know.'', qr_citations = [],
                         qr_retrieved_chunks = []\<rparr>,
                    w\<lparr>history := history w @ [EmbeddingModelRun [query],
                                                Warned NoResultsFound]\<rparr>))"
proof (intro conjI allI impI)
  show "process_query self response_model query w
           = (Inr \<lparr>qr_answer = ''I don't know.'', qr_citations = [], qr_retrieved_chunks = []\<rparr>, w)"
    using assms by (simp add: process_query_def)
  show "rag_callback self query w
           = (Inr ''I don't have any documents to answer from. Please upload some documents first.'', w)"
    using assms by (simp add: rag_callback_def)
  show "\<exists>r rest. answer_query self query k w
                      = (r, w\<lparr>history := history w @ EmbeddingModelRun [query] # rest\<rparr>)"
    by (rule answer_query_world)
next
  fix v vs results
  assume a: "embedding_model self w [query] = Inr (v # vs)
             \<and> query_similar self v k (w\<lparr>history := history w @ [EmbeddingModelRun [query]]\<rparr>)
                 = Inr results
             \<and> q_ids results = []"
  from a have a1: "embedding_model self w [query] = Inr (v # vs)" by (rule conjunct1)
  from a have a2: "query_similar self v k (w\<lparr>history := history w @ [EmbeddingModelRun [query]]\<rparr>)
                 = Inr results" by simp
  from a have a3: "q_ids results = []" by simp
  show "answer_query self query k w
                 = (Inr \<lparr>qr_answer = ''I don't know.'', qr_citations = [],
                         qr_retrieved_chunks = []\<rparr>,
                    w\<lparr>history := history w @ [EmbeddingModelRun [query],
                                                Warned NoResultsFound]\<rparr>)"
    by (rule answer_query_no_results [OF a1 a2 a3])
qed

text \<open>A question put to the empty world on each of the three paths.\<close>

theorem empty_store_answers_witness:
  "count empty_world = 0
   \<and> process_query example_services Inr ''Why?'' empty_world
       = (Inr \<lparr>qr_answer = ''I don't know.'', qr_citations = [], qr_retrieved_chunks = []\<rparr>,
          empty_world)
   \<and> rag_callback example_services ''Why?'' empty_world
       = (Inr ''I don't have any documents to answer from. Please upload some documents first.'',
          empty_world)
   \<and> answer_query example_services ''Why?'' 5 empty_world
       = (Inr \<lparr>qr_answer = ''I don't know.'', qr_citations = [], qr_retrieved_chunks = []\<rparr>,
          \<lparr>collection = [], history = [EmbeddingModelRun [''Why?''], Warned NoResultsFound]\<rparr>)"
proof -
  let ?w1 = "empty_world\<lparr>history := history empty_world @ [EmbeddingModelRun [''Why?'']]\<rparr>"
  let ?res = "\<lparr>q_ids = [], q_documents = [], q_metadatas = [], q_distances = []\<rparr>"
  have c: "count empty_world = 0" by (simp add: count_def empty_world_def)
  have h: "embedding_model example_services empty_world [''Why?''] = Inr (4 # [])
           \<and> query_similar example_services 4 5 ?w1 = Inr ?res
           \<and> q_ids ?res = []"
    by (simp add: example_services_def query_similar_def empty_world_def)
  note main = empty_store_answers [OF c, of example_services Inr "''Why?''" 5]
  from main have p: "process_query example_services Inr ''Why?'' empty_world
       = (Inr \<lparr>qr_answer = ''I don't know.'', qr_citations = [], qr_retrieved_chunks = []\<rparr>,
          empty_world)" by (rule conjunct1)
  from main have r: "rag_callback example_services ''Why?'' empty_world
       = (Inr ''I don't have any documents to answer from. Please upload some documents first.'',
          empty_world)" by (rule conjunct2 [THEN conjunct1])
  note direct = main [THEN conjunct2, THEN conjunct2, THEN conjunct2]
  from direct [rule_format, OF h]
  have "answer_query example_services ''Why?'' 5 empty_world
       = (Inr \<lparr>qr_answer = ''I don't know.'', qr_citations = [], qr_retrieved_chunks = []\<rparr>,
          empty_world\<lparr>history := history empty_world @ [EmbeddingModelRun [''Why?''],
                                                Warned NoResultsFound]\<rparr>)" .
  then have a: "answer_query example_services ''Why?'' 5 empty_world
       = (Inr \<lparr>qr_answer = ''I don't know.'', qr_citations = [], qr_retrieved_chunks = []\<rparr>,
          \<lparr>collection = [], history = [EmbeddingModelRun [''Why?''], Warned NoResultsFound]\<rparr>)"
    by (simp add: empty_world_def)
  from c p r a show ?thesis by (intro conjI)
qed

text \<open>
  The store is empty and \<open>answer_query\<close> is asked a question: the embedding model runs on
  it. Asked the same question, \<open>rag_callback\<close> does not answer \<open>I don't know.\<close>
\<close>

theorem answer_query_empty_store_counterexample:
  "count empty_world = 0
   \<and> answer_query example_services ''Why?'' 5 empty_world
       = (Inr \<lparr>qr_answer = ''I don't know.'', qr_citations = [], qr_retrieved_chunks = []\<rparr>,
          \<lparr>collection = [], history = [EmbeddingModelRun [''Why?''], Warned NoResultsFound]\<rparr>)
   \<and> EmbeddingModelRun [''Why?'']
       \<in> set (history (snd (answer_query example_services ''Why?'' 5 empty_world)))
   \<and> EmbeddingModelRun [''Why?''] \<notin> set (history empty_world)
   \<and> fst (rag_callback example_services ''Why?'' empty_world) \<noteq> Inr ''I don't know.''"
proof -
  have c: "count empty_world = 0" by (simp add: count_def empty_world_def)
  note a = example_empty_answer
  have m: "EmbeddingModelRun [''Why?'']
             \<in> set (history (snd (answer_query example_services ''Why?'' 5 empty_world)))"
    by (simp add: a)
  have n: "EmbeddingModelRun [''Why?''] \<notin> set (history empty_world)"
    by (simp add: empty_world_def)
  have r: "fst (rag_callback example_services ''Why?'' empty_world) \<noteq> Inr ''I don't know.''"
    by (simp add: rag_callback_def c)
  from c a m n r show ?thesis by (intro conjI)
qed

text \<open>When every column of the results is long enough, the loop builds one chunk per identifier.\<close>

lemma retrieved_loop_complete:
  assumes "\<forall>i\<in>set indices. i < length (q_documents results) \<and> i < length (q_metadatas results)
                              \<and> i < length (q_distances results)"
  shows "retrieved_loop results indices acc
           = Inr (acc @ map (\<lambda>i. \<lparr>rc_id = q_ids results ! i,
                                     rc_document = q_documents results ! i,
                                     rc_metadata = q_metadatas results ! i,
                                     rc_distance = q_distances results ! i\<rparr>) indices)"
  using assms by (induction indices arbitrary: acc) simp_all

text \<open>
  Claim C8. Let the question be embedded, let retrieval return \<open>n \<ge> 1\<close> identifiers with a
  document, a metadata dictionary and a distance for each, and let the generation model
  return a text for the prompt built from them. Then \<open>answer_query\<close> returns; its answer
  is that text, stripped, whatever it says; it has exactly \<open>n\<close> citations, the \<open>i\<close>-th being
  the \<open>source_filename\<close>, \<open>page_number\<close> and \<open>chunk_index\<close> entries of the metadata of the
  \<open>i\<close>-th retrieved chunk; and the retrieved chunks are returned in retrieval order.
\<close>

theorem answer_query_citations:
  fixes results :: query_results
  defines "retrieved \<equiv> map (\<lambda>i. \<lparr>rc_id = q_ids results ! i,
                                      rc_document = q_documents results ! i,
                                      rc_metadata = q_metadatas results ! i,
                                      rc_distance = q_distances results ! i\<rparr>)
                              [0..<length (q_ids results)]"
  assumes emb: "Embedder_encode self [query] w = (Inr (query_embedding # rest), w1)"
    and ret: "query_similar self query_embedding k w1 = Inr results"
    and n: "1 \<le> length (q_ids results)"
    and len: "length (q_ids results) \<le> length (q_documents results)"
             "length (q_ids results) \<le> length (q_metadatas results)"
             "length (q_ids results) \<le> length (q_distances results)"
    and gen: "generation_model self w1 (PromptBuilder_build query retrieved) = Inr answer_text"
  shows "\<exists>w'. answer_query self query k w
           = (Inr \<lparr>qr_answer = py_strip answer_text,
                   qr_citations =
                     map (\<lambda>i. \<lparr>cit_source_filename = map_of (q_metadatas results ! i) ''source_filename'',
                                cit_page_number = map_of (q_metadatas results ! i) ''page_number'',
                                cit_chunk_index = map_of (q_metadatas results ! i) ''chunk_index''\<rparr>)
                         [0..<length (q_ids results)],
                   qr_retrieved_chunks = retrieved\<rparr>, w')"
proof -
  have ne: "q_ids results \<noteq> []" using n by auto
  have "\<forall>i\<in>set [0..<length (q_ids results)].
          i < length (q_documents results) \<and> i < length (q_metadatas results)
          \<and> i < length (q_distances results)"
    using len by auto
  from retrieved_loop_complete [OF this, of "[]"]
  have lp: "retrieved_loop results [0..<length (q_ids results)] [] = Inr retrieved"
    by (simp add: retrieved_def)
  have ct: "map citation_of retrieved
              = map (\<lambda>i. \<lparr>cit_source_filename = map_of (q_metadatas results ! i) ''source_filename'',
                           cit_page_number = map_of (q_metadatas results ! i) ''page_number'',
                           cit_chunk_index = map_of (q_metadatas results ! i) ''chunk_index''\<rparr>)
                    [0..<length (q_ids results)]"
    by (simp add: retrieved_def citation_of_def comp_def Let_def)
  show ?thesis
    by (simp add: answer_query_def emb ret ne lp gen Let_def ct)
qed

text \<open>
  The five records of the example are retrieved for a question, and the generation model
  answers with the refusal sentence, padded with spaces.
\<close>

theorem answer_query_citations_witness:
  "Embedder_encode example_services [''Why?''] example_stored
     = (Inr [4], example_stored\<lparr>history := history example_stored @ [EmbeddingModelRun [''Why?'']]\<rparr>)
   \<and> query_similar example_services 4 5
         (example_stored\<lparr>history := history example_stored @ [EmbeddingModelRun [''Why?'']]\<rparr>)
       = Inr example_results
   \<and> length (q_ids example_results) = 5
   \<and> (\<exists>out w'. answer_query example_services ''Why?'' 5 example_stored = (Inr out, w')
          \<and> qr_answer out = ''I don't know.''
          \<and> qr_citations out
              = [\<lparr>cit_source_filename = Some (MStr ''notes.pdf''), cit_page_number = Some (MInt 1),
                  cit_chunk_index = Some (MInt 0)\<rparr>,
                 \<lparr>cit_source_filename = Some (MStr ''notes.pdf''), cit_page_number = Some (MInt 1),
                  cit_chunk_index = Some (MInt 1)\<rparr>,
                 \<lparr>cit_source_filename = Some (MStr ''notes.pdf''), cit_page_number = Some (MInt 1),
                  cit_chunk_index = Some (MInt 2)\<rparr>,
                 \<lparr>cit_source_filename = Some (MStr ''notes.pdf''), cit_page_number = Some (MInt 3),
                  cit_chunk_index = Some (MInt 3)\<rparr>,
                 \<lparr>cit_source_filename = Some (MStr ''notes.pdf''), cit_page_number = Some (MInt 3),
                  cit_chunk_index = Some (MInt 4)\<rparr>])"
proof -
  let ?w1 = "example_stored\<lparr>history := history example_stored @ [EmbeddingModelRun [''Why?'']]\<rparr>"
  have emb: "Embedder_encode example_services [''Why?''] example_stored = (Inr (4 # []), ?w1)"
    by (simp add: Embedder_encode_def example_services_def)
  have ret: "query_similar example_services 4 5 ?w1 = Inr example_results"
    by (simp add: query_similar_def example_services_def example_results_def)
  have n5: "length (q_ids example_results) = 5"
    by (simp add: example_results_def example_stored_def)
  have n: "1 \<le> length (q_ids example_results)" using n5 by simp
  have len: "length (q_ids example_results) \<le> length (q_documents example_results)"
    "length (q_ids example_results) \<le> length (q_metadatas example_results)"
    "length (q_ids example_results) \<le> length (q_distances example_results)"
    by (simp_all add: example_results_def)
  have gen: "generation_model example_services ?w1 p = Inr '' I don't know. ''" for p
    by (simp add: example_services_def)
  from answer_query_citations [OF emb ret n len gen]
  obtain w' where run: "answer_query example_services ''Why?'' 5 example_stored
           = (Inr \<lparr>qr_answer = py_strip '' I don't know. '',
                   qr_citations =
                     map (\<lambda>i. \<lparr>cit_source_filename = map_of (q_metadatas example_results ! i) ''source_filename'',
                                cit_page_number = map_of (q_metadatas example_results ! i) ''page_number'',
                                cit_chunk_index = map_of (q_metadatas example_results ! i) ''chunk_index''\<rparr>)
                         [0..<length (q_ids example_results)],
                   qr_retrieved_chunks =
                     map (\<lambda>i. \<lparr>rc_id = q_ids example_results ! i,
                                rc_document = q_documents example_results ! i,
                                rc_metadata = q_metadatas example_results ! i,
                                rc_distance = q_distances example_results ! i\<rparr>)
                         [0..<length (q_ids example_results)]\<rparr>, w')"
    by blast
  have st: "py_strip '' I don't know. '' = ''I don't know.''"
    by (simp add: py_strip_def py_isspace_def)
  have up: "[0..<5] = [0, 1, 2, 3, 4]" by (simp add: upt_rec)
  have ct: "map (\<lambda>i. \<lparr>cit_source_filename = map_of (q_metadatas example_results ! i) ''source_filename'',
                                cit_page_number = map_of (q_metadatas example_results ! i) ''page_number'',
                                cit_chunk_index = map_of (q_metadatas example_results ! i) ''chunk_index''\<rparr>)
                         [0..<length (q_ids example_results)]
       = [\<lparr>cit_source_filename = Some (MStr ''notes.pdf''), cit_page_number = Some (MInt 1),
                  cit_chunk_index = Some (MInt 0)\<rparr>,
                 \<lparr>cit_source_filename = Some (MStr ''notes.pdf''), cit_page_number = Some (MInt 1),
                  cit_chunk_index = Some (MInt 1)\<rparr>,
                 \<lparr>cit_source_filename = Some (MStr ''notes.pdf''), cit_page_number = Some (MInt 1),
                  cit_chunk_index = Some (MInt 2)\<rparr>,
                 \<lparr>cit_source_filename = Some (MStr ''notes.pdf''), cit_page_number = Some (MInt 3),
                  cit_chunk_index = Some (MInt 3)\<rparr>,
                 \<lparr>cit_source_filename = Some (MStr ''notes.pdf''), cit_page_number = Some (MInt 3),
                  cit_chunk_index = Some (MInt 4)\<rparr>]"
    unfolding n5 up by (simp add: example_results_def example_stored_def)
  from run st ct have "\<exists>out w'. answer_query example_services ''Why?'' 5 example_stored = (Inr out, w')
          \<and> qr_answer out = ''I don't know.''
          \<and> qr_citations out
              = [\<lparr>cit_source_filename = Some (MStr ''notes.pdf''), cit_page_number = Some (MInt 1),
                  cit_chunk_index = Some (MInt 0)\<rparr>,
                 \<lparr>cit_source_filename = Some (MStr ''notes.pdf''), cit_page_number = Some (MInt 1),
                  cit_chunk_index = Some (MInt 1)\<rparr>,
                 \<lparr>cit_source_filename = Some (MStr ''notes.pdf''), cit_page_number = Some (MInt 1),
                  cit_chunk_index = Some (MInt 2)\<rparr>,
                 \<lparr>cit_source_filename = Some (MStr ''notes.pdf''), cit_page_number = Some (MInt 3),
                  cit_chunk_index = Some (MInt 3)\<rparr>,
                 \<lparr>cit_source_filename = Some (MStr ''notes.pdf''), cit_page_number = Some (MInt 3),
                  cit_chunk_index = Some (MInt 4)\<rparr>]"
    by simp
  with emb ret n5 show ?thesis by simp
qed

end
